theory Spec2Isabelle
  imports Complex_Main "HOL-Library.Multiset" "HOL-Library.List_Lexorder" "HOL-Library.Char_ord"
begin

section \<open>JavaScript values used by the report generator\<close>

text \<open>
  A property of a parsed JSON record is either absent (\<open>None\<close>) or a string. The
  operator \<open>x || d\<close> yields \<open>x\<close> when it is truthy, that is present and not the empty
  string, and \<open>d\<close> otherwise.
\<close>

definition orElse :: "string option \<Rightarrow> string \<Rightarrow> string" where
  "orElse x d = (case x of None \<Rightarrow> d | Some s \<Rightarrow> if s = [] then d else s)"

definition orEmpty :: "'a list option \<Rightarrow> 'a list" where
  "orEmpty xs = (case xs of None \<Rightarrow> [] | Some ys \<Rightarrow> ys)"

text \<open>
  A plain object with string keys is an association list of its own properties, without
  repeated keys, in key order; \<open>Object.keys\<close> is \<open>map fst\<close>. \<open>lookupOrEmpty\<close> is the
  read \<open>obj[k] || []\<close> of an own property, or of a key that the object neither owns nor
  inherits. A plain object inherits the members of \<open>Object.prototype\<close>, whose names are
  \<open>objectPrototypeNames\<close>: under such a key that it does not own, \<open>obj[k]\<close> is a function
  or an object and not a list, which is outside \<open>lookupOrEmpty\<close>.
\<close>

definition lookupOrEmpty :: "(string \<times> 'a list) list \<Rightarrow> string \<Rightarrow> 'a list" where
  "lookupOrEmpty obj k = orEmpty (map_of obj k)"


subsection \<open>Number formatting: \<open>toFixed(1)\<close> and \<open>parseFloat\<close>\<close>

text \<open>
  Numbers are modelled by exact rationals; the rounding of the double-precision division
  and multiplication is not part of the model. \<open>Number.prototype.toFixed(1)\<close> picks the
  integer \<open>n\<close> with \<open>n / 10\<close> closest to the number, the larger one on a tie, and prints
  the decimal digits of \<open>n\<close> with a point before the last digit (below \<open>10^21\<close>, which
  a percentage of counted list entries does not reach).
\<close>

definition digitChar :: "nat \<Rightarrow> char" where
  "digitChar d = ''0123456789'' ! d"

function showNat :: "nat \<Rightarrow> string" where
  "showNat n = (if n < 10 then [digitChar n] else showNat (n div 10) @ [digitChar (n mod 10)])"
  by pat_completeness auto
termination
  by (relation "measure id") auto

declare showNat.simps [simp del]

definition toFixed1 :: "rat \<Rightarrow> string" where
  "toFixed1 x =
     (let a = \<bar>x\<bar>;
          n = nat \<lfloor>a * 10 + 1 / 2\<rfloor>;
          m = showNat (n div 10) @ ''.'' @ showNat (n mod 10)
      in if x < 0 then ''-'' @ m else m)"

definition isDigit :: "char \<Rightarrow> bool" where
  "isDigit c = (c \<in> set ''0123456789'')"

text \<open>The value of a digit is its position in the digit string.\<close>

definition digitVal :: "char \<Rightarrow> nat" where
  "digitVal c = length (takeWhile (\<lambda>d. d \<noteq> c) ''0123456789'')"

definition natOfDigits :: "string \<Rightarrow> nat" where
  "natOfDigits s = foldl (\<lambda>a c. 10 * a + digitVal c) 0 s"

text \<open>
  \<open>parseFloat\<close> on the unsigned decimal literals the generator hands to it: the longest
  prefix of the form digits, optionally followed by a point and digits; \<open>None\<close> is NaN.
\<close>

definition parseFloat :: "string \<Rightarrow> rat option" where
  "parseFloat s =
     (let ip = takeWhile isDigit s; rest = dropWhile isDigit s
      in case rest of
           c # r \<Rightarrow>
             if c = CHR ''.'' then
               (let fp = takeWhile isDigit r
                in if ip = [] \<and> fp = [] then None
                   else Some (of_nat (natOfDigits ip) + of_nat (natOfDigits fp) / 10 ^ length fp))
             else if ip = [] then None else Some (of_nat (natOfDigits ip))
         | [] \<Rightarrow> if ip = [] then None else Some (of_nat (natOfDigits ip)))"

section \<open>The normalized data handed to the Excel generator\<close>

record region =
  r_code :: "string option"
  r_regionCode :: "string option"
  r_RegionCode :: "string option"
  r_name :: "string option"
  r_regionName :: "string option"
  r_RegionName :: "string option"
  r_availabilityZones :: "nat option"
  r_AvailabilityZones :: "string list option"
  r_launchDate :: "string option"
  r_LaunchDate :: "string option"
  r_blogUrl :: "string option"
  r_BlogUrl :: "string option"

record service =
  s_code :: "string option"
  s_serviceCode :: "string option"
  s_ServiceCode :: "string option"
  s_name :: "string option"
  s_serviceName :: "string option"
  s_ServiceName :: "string option"

record metadata =
  m_schemaVersion :: "string option"
  m_version :: "string option"
  m_timestamp :: "string option"

record source_data =
  sd_metadata :: "metadata option"
  sd_regions :: "region list option"
  sd_services :: "service list option"
  sd_servicesByRegion :: "(string \<times> string list) list option"

record font =
  argb :: string
  bold :: bool
  italic :: bool
  underline :: bool

section \<open>Services sheet (\<open>createServicesSheet\<close>)\<close>

text \<open>
  \<open>serviceRegionCounts\<close> is a \<open>Map\<close> from service code to a counter: every occurrence of
  a code in the list stored under any key of \<open>servicesByRegion\<close> adds one.
\<close>

definition bumpCount :: "(string \<rightharpoonup> nat) \<Rightarrow> string \<Rightarrow> (string \<rightharpoonup> nat)" where
  "bumpCount m c = m(c \<mapsto> (case m c of None \<Rightarrow> 0 | Some n \<Rightarrow> n) + 1)"

definition serviceRegionCounts :: "(string \<times> string list) list \<Rightarrow> (string \<rightharpoonup> nat)" where
  "serviceRegionCounts servicesByRegion =
     fold (\<lambda>regionCode m. fold (\<lambda>serviceCode m'. bumpCount m' serviceCode)
                               (lookupOrEmpty servicesByRegion regionCode) m)
          (map fst servicesByRegion) Map.empty"

definition getOrZero :: "(string \<rightharpoonup> nat) \<Rightarrow> string \<Rightarrow> nat" where
  "getOrZero m k = (case m k of None \<Rightarrow> 0 | Some n \<Rightarrow> n)"

text \<open>
  \<open>coveragePercent\<close> is the text of \<open>toFixed(1)\<close> when there is a region, and the number
  \<open>0\<close> otherwise, whose conversion to text (in the template literal of the cell and in
  \<open>parseFloat\<close>) is \<open>0\<close>.
\<close>

definition coveragePercent :: "nat \<Rightarrow> nat \<Rightarrow> string" where
  "coveragePercent regionCount totalRegions =
     (if totalRegions > 0 then toFixed1 ((of_nat regionCount / of_nat totalRegions) * 100)
      else ''0'')"

definition greenBold :: font where
  "greenBold = \<lparr>argb = ''FF00B050'', bold = True, italic = False, underline = False\<rparr>"

definition lightGreen :: font where
  "lightGreen = \<lparr>argb = ''FF92D050'', bold = False, italic = False, underline = False\<rparr>"

definition orange :: font where
  "orange = \<lparr>argb = ''FFFFC000'', bold = False, italic = False, underline = False\<rparr>"

definition red :: font where
  "red = \<lparr>argb = ''FFC00000'', bold = False, italic = False, underline = False\<rparr>"

definition grayItalic :: font where
  "grayItalic = \<lparr>argb = ''FF7F7F7F'', bold = False, italic = True, underline = False\<rparr>"

text \<open>The colour chain; every comparison with NaN is false, which leads to the last branch.\<close>

definition percentFont :: "rat option \<Rightarrow> font" where
  "percentFont percentValue =
     (case percentValue of
        None \<Rightarrow> grayItalic
      | Some v \<Rightarrow>
          if v = 100 then greenBold
          else if v \<ge> 75 then lightGreen
          else if v \<ge> 50 then orange
          else if v > 0 then red
          else grayItalic)"

record service_row =
  serviceCode :: string
  serviceName :: string
  availableRegions :: nat
  coveragePercentCell :: string
  coveragePercentFont :: font

definition serviceCodeOf :: "service \<Rightarrow> string" where
  "serviceCodeOf s = orElse (s_code s) (orElse (s_serviceCode s) (orElse (s_ServiceCode s) []))"

definition serviceNameOf :: "service \<Rightarrow> string" where
  "serviceNameOf s = orElse (s_name s) (orElse (s_serviceName s) (orElse (s_ServiceName s) []))"

definition serviceRow :: "nat \<Rightarrow> (string \<rightharpoonup> nat) \<Rightarrow> service \<Rightarrow> service_row" where
  "serviceRow totalRegions counts s =
     (let code = serviceCodeOf s;
          regionCount = getOrZero counts code;
          cp = coveragePercent regionCount totalRegions
      in \<lparr>serviceCode = code,
          serviceName = serviceNameOf s,
          availableRegions = regionCount,
          coveragePercentCell = cp @ ''%'',
          coveragePercentFont = percentFont (parseFloat cp)\<rparr>)"

text \<open>
  The rows are sorted with \<open>[...services].sort((a, b) => nameA.localeCompare(nameB))\<close> on
  the lower-cased names. \<open>Array.prototype.sort\<close> is stable. \<open>localeCompare\<close> orders
  strings by their collation keys: the parameter \<open>localeKey\<close> maps a string to its key in
  a linear order, so that \<open>a.localeCompare(b)\<close> is negative, zero or positive as
  \<open>localeKey a\<close> is below, equal to or above \<open>localeKey b\<close>. \<open>toLowerCase\<close> is modelled
  on the ASCII letters.
\<close>

definition toLowerChar :: "char \<Rightarrow> char" where
  "toLowerChar c =
     (case map_of (zip ''ABCDEFGHIJKLMNOPQRSTUVWXYZ'' ''abcdefghijklmnopqrstuvwxyz'') c of
        None \<Rightarrow> c
      | Some l \<Rightarrow> l)"

definition toLowerCase :: "string \<Rightarrow> string" where
  "toLowerCase s = map toLowerChar s"

definition sortedServicesBy ::
  "(string \<Rightarrow> 'k::linorder) \<Rightarrow> (service \<Rightarrow> string) \<Rightarrow> service list \<Rightarrow> service list" where
  "sortedServicesBy localeKey nameOf services =
     sort_key (\<lambda>s. localeKey (toLowerCase (nameOf s))) services"

text \<open>The name the Services sheet sorts by: \<open>a.serviceName || a.ServiceName || a.name || ''\<close>.\<close>

definition servicesSortName :: "service \<Rightarrow> string" where
  "servicesSortName a =
     orElse (s_serviceName a) (orElse (s_ServiceName a) (orElse (s_name a) []))"

definition createServicesSheet ::
  "(string \<Rightarrow> 'k::linorder) \<Rightarrow> source_data \<Rightarrow> service_row list" where
  "createServicesSheet localeKey sourceData =
     (let regions = orEmpty (sd_regions sourceData);
          totalRegions = length regions;
          servicesByRegion = orEmpty (sd_servicesByRegion sourceData);
          counts = serviceRegionCounts servicesByRegion;
          services = orEmpty (sd_services sourceData);
          sortedServices = sortedServicesBy localeKey servicesSortName services
      in map (serviceRow totalRegions counts) sortedServices)"

section \<open>Service Coverage sheet (\<open>createServiceCoverageSheet\<close>)\<close>

datatype marker = Available | NotAvailable

text \<open>
  The sheet is either the single merged cell \<open>A1:E5\<close> with a message, centred in both
  directions, or the matrix: the header row and one row per service, the service name
  followed by one marker per region column.
\<close>

record placeholder =
  mergedCells :: string
  cellValue :: string
  horizontal :: string
  vertical :: string

datatype coverage_sheet =
  Placeholder placeholder
| Matrix "string list" "(string \<times> marker list) list"

definition notAvailablePlaceholder :: placeholder where
  "notAvailablePlaceholder =
     \<lparr>mergedCells = ''A1:E5'',
      cellValue = ''Service-by-region mapping not available in source data'',
      horizontal = ''center'',
      vertical = ''middle''\<rparr>"

definition regionCodeOf :: "region \<Rightarrow> string" where
  "regionCodeOf r = orElse (r_code r) (orElse (r_regionCode r) (orElse (r_RegionCode r) []))"

definition coverageRow ::
  "(string \<times> string list) list \<Rightarrow> string list \<Rightarrow> service \<Rightarrow> string \<times> marker list" where
  "coverageRow servicesByRegion regionCodes s =
     (serviceNameOf s,
      map (\<lambda>regionCode.
             if serviceCodeOf s \<in> set (lookupOrEmpty servicesByRegion regionCode)
             then Available else NotAvailable) regionCodes)"

definition createServiceCoverageSheet ::
  "(string \<Rightarrow> 'k::linorder) \<Rightarrow> source_data \<Rightarrow> coverage_sheet" where
  "createServiceCoverageSheet localeKey sourceData =
     (case sd_servicesByRegion sourceData of
        None \<Rightarrow> Placeholder notAvailablePlaceholder
      | Some servicesByRegion \<Rightarrow>
          if map fst servicesByRegion = [] then Placeholder notAvailablePlaceholder
          else
            (let regions = orEmpty (sd_regions sourceData);
                 services = orEmpty (sd_services sourceData);
                 regionCodes = map regionCodeOf regions;
                 headers = ''Service'' # regionCodes;
                 sortedServices = sortedServicesBy localeKey serviceNameOf services
             in Matrix headers (map (coverageRow servicesByRegion regionCodes) sortedServices)))"

section \<open>Regions sheet (\<open>createRegionsSheet\<close>)\<close>

text \<open>
  \<open>new Date(text)\<close> is a parameter of the model: for a given text the try block either
  throws, or builds an invalid date (its time value is NaN), or builds a valid date, of
  which the model keeps the text that \<open>toISOString\<close> prints.
\<close>

datatype js_date = DateThrows | InvalidDate | ValidDate string

definition formatLaunchDate :: "(string \<Rightarrow> js_date) \<Rightarrow> string \<Rightarrow> string" where
  "formatLaunchDate newDate launchDate =
     (if launchDate \<noteq> [] then
        (case newDate launchDate of
           ValidDate isoText \<Rightarrow> takeWhile (\<lambda>c. c \<noteq> CHR ''T'') isoText
         | InvalidDate \<Rightarrow> ''N/A''
         | DateThrows \<Rightarrow> launchDate)
      else ''N/A'')"

definition hyperlinkFont :: font where
  "hyperlinkFont = \<lparr>argb = ''FF0563C1'', bold = False, italic = False, underline = True\<rparr>"

record region_row =
  regionCode :: string
  regionName :: string
  azCount :: nat
  serviceCount :: nat
  launchDateCell :: string
  launchDateFont :: "font option"
  blogUrlCell :: string
  blogUrlHyperlink :: "string option"
  blogUrlFont :: "font option"

definition azCountOf :: "region \<Rightarrow> nat" where
  "azCountOf r =
     (let alt = (case r_AvailabilityZones r of None \<Rightarrow> 0 | Some zs \<Rightarrow> length zs)
      in case r_availabilityZones r of None \<Rightarrow> alt | Some n \<Rightarrow> if n = 0 then alt else n)"

definition regionRow ::
  "(string \<Rightarrow> js_date) \<Rightarrow> (string \<times> string list) list \<Rightarrow> region \<Rightarrow> region_row" where
  "regionRow newDate servicesByRegion r =
     (let code = regionCodeOf r;
          launchDate = orElse (r_launchDate r) (orElse (r_LaunchDate r) []);
          blogUrl = orElse (r_blogUrl r) (orElse (r_BlogUrl r) []);
          servicesInRegion = lookupOrEmpty servicesByRegion code;
          formattedLaunchDate = formatLaunchDate newDate launchDate;
          blogValue = (if blogUrl = [] then ''N/A'' else blogUrl)
      in \<lparr>regionCode = code,
          regionName = orElse (r_name r) (orElse (r_regionName r) (orElse (r_RegionName r) [])),
          azCount = azCountOf r,
          serviceCount = length servicesInRegion,
          launchDateCell = formattedLaunchDate,
          launchDateFont = (if formattedLaunchDate = ''N/A'' then Some grayItalic else None),
          blogUrlCell = blogValue,
          blogUrlHyperlink = (if blogValue \<noteq> ''N/A'' then Some blogValue else None),
          blogUrlFont = (if blogValue \<noteq> ''N/A'' then Some hyperlinkFont else Some grayItalic)\<rparr>)"

definition createRegionsSheet :: "(string \<Rightarrow> js_date) \<Rightarrow> source_data \<Rightarrow> region_row list" where
  "createRegionsSheet newDate sourceData =
     (let servicesByRegion = orEmpty (sd_servicesByRegion sourceData);
          regions = orEmpty (sd_regions sourceData)
      in map (regionRow newDate servicesByRegion) regions)"

section \<open>Validation and normalization in the Lambda handler\<close>

text \<open>
  The parsed source document. A container of regions or of service codes comes either
  as the array itself or as an object holding the array under the same name (\<open>x.x || x\<close>).
  The value of \<open>servicesByRegion\<close> and the values inside it are JSON values: an array of
  strings, an object with its properties in key order, a string, or \<open>null\<close> (numbers,
  booleans and arrays of other values are outside the model).
\<close>

datatype 'a container = Wrapped "'a list" | Direct "'a list"

datatype region_data =
  RegionArray "string list"
| RegionObject "(string \<times> region_data) list"
| RegionString string
| RegionNull

record raw_source =
  raw_metadata :: "metadata option"
  raw_regions :: "region container option"
  raw_services :: "string container option"
  raw_servicesByRegion :: "region_data option"

record named_service =
  ns_code :: string
  ns_name :: "string option"

datatype error =
  SourceError string
| InvalidDataStructure
| TypeError
| ExcelError string
| UploadError string
| S3Error string
| RetentionError string
| NotificationError string

definition errorMessage :: "error \<Rightarrow> string" where
  "errorMessage err =
     (case err of
        SourceError msg \<Rightarrow> msg
      | InvalidDataStructure \<Rightarrow>
          ''Invalid data structure: missing required fields (metadata, regions, or services)''
      | TypeError \<Rightarrow> ''Cannot read properties of null (reading services)''
      | ExcelError msg \<Rightarrow> msg
      | UploadError msg \<Rightarrow> msg
      | S3Error msg \<Rightarrow> msg
      | RetentionError msg \<Rightarrow> msg
      | NotificationError msg \<Rightarrow> msg)"

definition unwrap :: "'a container \<Rightarrow> 'a list" where
  "unwrap c = (case c of Wrapped xs \<Rightarrow> xs | Direct xs \<Rightarrow> xs)"

text \<open>
  \<open>obj[k] = v\<close> on a plain object: an existing key keeps its place, a new key goes to the
  end; the key \<open>__proto__\<close> sets the prototype and makes no property of the object.
  JavaScript lists the keys that are array indices before the others; the list here does
  not move them, and the sheets do not depend on it: they read the mapping by key and
  count over all its keys.
\<close>

fun setProp :: "(string \<times> 'a) list \<Rightarrow> string \<Rightarrow> 'a \<Rightarrow> (string \<times> 'a) list" where
  "setProp [] k v = [(k, v)]"
| "setProp ((k', v') # obj) k v = (if k' = k then (k, v) # obj else (k', v') # setProp obj k v)"

definition assignProp :: "(string \<times> 'a) list \<Rightarrow> string \<Rightarrow> 'a \<Rightarrow> (string \<times> 'a) list" where
  "assignProp obj k v = (if k = ''__proto__'' then obj else setProp obj k v)"

text \<open>A value is falsy when it is \<open>null\<close> or the empty string.\<close>

fun truthy :: "region_data \<Rightarrow> bool" where
  "truthy RegionNull = False"
| "truthy (RegionString s) = (s \<noteq> [])"
| "truthy (RegionArray xs) = True"
| "truthy (RegionObject props) = True"

text \<open>
  \<open>Object.keys(v)\<close> with the value \<open>v[k]\<close> of each key: the properties of an object, the
  elements of an array under their indices, the characters of a string under theirs.
\<close>

fun entries :: "region_data \<Rightarrow> (string \<times> region_data) list" where
  "entries (RegionObject props) = props"
| "entries (RegionArray xs) = map (\<lambda>i. (showNat i, RegionString (xs ! i))) [0..<length xs]"
| "entries (RegionString s) = map (\<lambda>i. (showNat i, RegionString [s ! i])) [0..<length s]"
| "entries RegionNull = []"

text \<open>\<open>v?.byRegion\<close>: only an object has the property.\<close>

fun byRegionOf :: "region_data \<Rightarrow> region_data option" where
  "byRegionOf (RegionObject props) = map_of props ''byRegion''"
| "byRegionOf v = None"

text \<open>
  One step of the loop over \<open>Object.keys(servicesByRegionRaw)\<close>: an array is stored as
  it is, an object whose \<open>services\<close> property is an array is stored as that array, any
  other object and a string are skipped, and reading \<open>.services\<close> of \<open>null\<close> throws a
  \<open>TypeError\<close>, which leaves the loop.
\<close>

fun normalizeEntry ::
  "(string \<times> string list) list \<Rightarrow> string \<times> region_data \<Rightarrow> error + (string \<times> string list) list" where
  "normalizeEntry acc (rc, RegionArray xs) = Inr (assignProp acc rc xs)"
| "normalizeEntry acc (rc, RegionObject props) =
     (case map_of props ''services'' of
        Some (RegionArray xs) \<Rightarrow> Inr (assignProp acc rc xs)
      | _ \<Rightarrow> Inr acc)"
| "normalizeEntry acc (rc, RegionString s) = Inr acc"
| "normalizeEntry acc (rc, RegionNull) = Inl TypeError"

fun normalizeCoverageFrom ::
  "(string \<times> string list) list \<Rightarrow> (string \<times> region_data) list \<Rightarrow> error + (string \<times> string list) list" where
  "normalizeCoverageFrom acc [] = Inr acc"
| "normalizeCoverageFrom acc (e # es) =
     (case normalizeEntry acc e of Inl err \<Rightarrow> Inl err | Inr acc' \<Rightarrow> normalizeCoverageFrom acc' es)"

definition normalizeCoverage ::
  "(string \<times> region_data) list \<Rightarrow> error + (string \<times> string list) list" where
  "normalizeCoverage raw = normalizeCoverageFrom [] raw"

text \<open>
  \<open>sourceData.servicesByRegion?.byRegion || sourceData.servicesByRegion || {}\<close>, as the
  list of the keys and values that the loop visits.
\<close>

definition servicesByRegionRaw :: "raw_source \<Rightarrow> (string \<times> region_data) list" where
  "servicesByRegionRaw sourceData =
     (case raw_servicesByRegion sourceData of
        None \<Rightarrow> []
      | Some sbr \<Rightarrow>
          (case byRegionOf sbr of
             Some nested \<Rightarrow>
               if truthy nested then entries nested
               else if truthy sbr then entries sbr else []
           | None \<Rightarrow> if truthy sbr then entries sbr else []))"

text \<open>
  An entry that stands for the service codes \<open>ys\<close> in one of the two shapes: the plain
  array, or an object that holds the array under \<open>services\<close>.
\<close>

definition givenAs :: "region_data \<Rightarrow> string list \<Rightarrow> bool" where
  "givenAs d ys =
     (case d of
        RegionArray xs \<Rightarrow> xs = ys
      | RegionObject props \<Rightarrow> map_of props ''services'' = Some (RegionArray ys)
      | RegionString s \<Rightarrow> False
      | RegionNull \<Rightarrow> False)"

text \<open>\<open>serviceMap\<close>: a later entry of \<open>services.json\<close> with the same code replaces an earlier one.\<close>

definition serviceMapOf :: "named_service list \<Rightarrow> (string \<rightharpoonup> string option)" where
  "serviceMapOf servicesWithNames =
     fold (\<lambda>sv m. m(ns_code sv \<mapsto> ns_name sv)) servicesWithNames Map.empty"

definition enrich :: "(string \<rightharpoonup> string option) \<Rightarrow> string \<Rightarrow> service" where
  "enrich serviceMap code =
     \<lparr>s_code = Some code, s_serviceCode = None, s_ServiceCode = None,
      s_name = Some (orElse (case serviceMap code of None \<Rightarrow> None | Some n \<Rightarrow> n) code),
      s_serviceName = None, s_ServiceName = None\<rparr>"

text \<open>
  The service records that the handler builds have the two properties \<open>code\<close> and
  \<open>name\<close> and no other; in particular neither \<open>serviceName\<close> nor \<open>ServiceName\<close>.
\<close>

definition canonicalService :: "service \<Rightarrow> bool" where
  "canonicalService s = (s_serviceName s = None \<and> s_ServiceName s = None)"

definition normalizeData :: "raw_source \<Rightarrow> named_service list \<Rightarrow> error + source_data" where
  "normalizeData sourceData servicesWithNames =
     (case raw_metadata sourceData of
        None \<Rightarrow> Inl InvalidDataStructure
      | Some md \<Rightarrow>
     (case raw_regions sourceData of
        None \<Rightarrow> Inl InvalidDataStructure
      | Some rs \<Rightarrow>
     (case raw_services sourceData of
        None \<Rightarrow> Inl InvalidDataStructure
      | Some ss \<Rightarrow>
          (let regions = unwrap rs;
               serviceCodes = unwrap ss;
               services = map (enrich (serviceMapOf servicesWithNames)) serviceCodes
           in case normalizeCoverage (servicesByRegionRaw sourceData) of
                Inl err \<Rightarrow> Inl err
              | Inr servicesByRegion \<Rightarrow>
                  Inr \<lparr>sd_metadata = Some md, sd_regions = Some regions,
                       sd_services = Some services,
                       sd_servicesByRegion = Some servicesByRegion\<rparr>))))"

section \<open>Archive retention and distribution (\<open>archiveManager.js\<close>)\<close>

text \<open>
  The archive is the list of objects that \<open>ListObjectsV2\<close> returns under the prefix,
  each with its key and its last-modified time in milliseconds; \<open>listError\<close> is the
  message of a failing list call, \<open>deleteFails\<close> the keys whose \<open>DeleteObject\<close> call
  throws. The cutoff is the current time moved back by \<open>retentionDays\<close> calendar days,
  which in the UTC time zone of the Lambda runtime are days of 86400000 ms.
\<close>

record s3_object =
  Key :: string
  LastModified :: int

record s3 =
  objects :: "s3_object list"
  listError :: "string option"
  deleteFails :: "string list"

record retention_result =
  retained :: nat
  deleted :: nat

definition deleteObject :: "s3 \<Rightarrow> string \<Rightarrow> error + s3" where
  "deleteObject store k =
     (if k \<in> set (deleteFails store) then Inl (S3Error k)
      else Inr (store\<lparr>objects := filter (\<lambda>obj. Key obj \<noteq> k) (objects store)\<rparr>))"

fun deleteExpired :: "s3_object list \<Rightarrow> nat \<times> s3 \<Rightarrow> nat \<times> s3" where
  "deleteExpired [] (deletedCount, store) = (deletedCount, store)"
| "deleteExpired (obj # expiredObjects) (deletedCount, store) =
     (case deleteObject store (Key obj) of
        Inr store' \<Rightarrow> deleteExpired expiredObjects (deletedCount + 1, store')
      | Inl err \<Rightarrow> deleteExpired expiredObjects (deletedCount, store))"

definition cutoffDate :: "int \<Rightarrow> int \<Rightarrow> int" where
  "cutoffDate now retentionDays = now - retentionDays * 86400000"

definition manageArchiveRetention :: "s3 \<Rightarrow> int \<Rightarrow> int \<Rightarrow> error + (retention_result \<times> s3)" where
  "manageArchiveRetention store now retentionDays =
     (case listError store of
        Some msg \<Rightarrow> Inl (RetentionError (''Archive retention management failed: '' @ msg))
      | None \<Rightarrow>
          (let objs = objects store
           in if length objs = 0 then Inr (\<lparr>retained = 0, deleted = 0\<rparr>, store)
              else
                (let cutoff = cutoffDate now retentionDays;
                     expiredObjects = filter (\<lambda>obj. LastModified obj < cutoff) objs;
                     retainedObjects = filter (\<lambda>obj. \<not> LastModified obj < cutoff) objs;
                     (deletedCount, store') = deleteExpired expiredObjects (0, store)
                 in Inr (\<lparr>retained = length retainedObjects, deleted = deletedCount\<rparr>, store'))))"

record distribution_result =
  distributed :: bool
  reason :: "string option"
  distributionPath :: "string option"
  dist_error :: "string option"
  dist_errorType :: "string option"

text \<open>
  \<open>distributeReports\<close>: \<open>copyError\<close> is the message and the name of the error that the
  \<open>CopyObject\<close> call throws, if it does.
\<close>

definition distributeReports ::
  "(string \<times> string) option \<Rightarrow> string option \<Rightarrow> string option \<Rightarrow> distribution_result" where
  "distributeReports copyError distributionBucket distributionKey =
     (if orElse distributionBucket [] = [] \<or> orElse distributionKey [] = [] then
        \<lparr>distributed = False, reason = Some ''Distribution bucket not configured'',
         distributionPath = None, dist_error = None, dist_errorType = None\<rparr>
      else
        (case copyError of
           None \<Rightarrow>
             \<lparr>distributed = True, reason = None,
              distributionPath =
                Some (''s3://'' @ orElse distributionBucket [] @ ''/'' @ orElse distributionKey []),
              dist_error = None, dist_errorType = None\<rparr>
         | Some (message, name) \<Rightarrow>
             \<lparr>distributed = False, reason = None, distributionPath = None,
              dist_error = Some message, dist_errorType = Some name\<rparr>))"

section \<open>The Lambda handler\<close>

text \<open>
  What the handler meets outside itself during one run: the outcome of reading the
  source document, the service names (an empty list when they cannot be read), the
  failure, if any, of building and serializing the workbook, of the two uploads after
  their retries and of sending the success or warning notification, the outcome of the
  copy to the distribution bucket, the configuration, the archive and the clock.
\<close>

record world =
  readSourceData :: "error + raw_source"
  readServicesData :: "named_service list"
  excelError :: "string option"
  uploadError :: "string option"
  copyError :: "(string \<times> string) option"
  distributionBucket :: "string option"
  distributionKey :: "string option"
  archive :: s3
  now :: int
  archiveRetentionDays :: int
  notifyError :: "string option"

datatype notification = SuccessNotification | WarningNotification string | FailureNotification error

record report =
  regionsSheet :: "region_row list"
  servicesSheet :: "service_row list"
  coverageSheet :: coverage_sheet

record run_result =
  statusCode :: nat
  notifications :: "notification list"
  generated :: "report option"
  distributionResult :: "distribution_result option"
  archivedReportsRetained :: "nat option"
  archivedReportsDeleted :: nat
  failure :: "error option"

definition generateExcelReport ::
  "(string \<Rightarrow> 'k::linorder) \<Rightarrow> (string \<Rightarrow> js_date) \<Rightarrow> source_data \<Rightarrow> report" where
  "generateExcelReport localeKey newDate sourceData =
     \<lparr>regionsSheet = createRegionsSheet newDate sourceData,
      servicesSheet = createServicesSheet localeKey sourceData,
      coverageSheet = createServiceCoverageSheet localeKey sourceData\<rparr>"

text \<open>The \<open>catch\<close> block of the handler: a failure notification and status 500.\<close>

definition failed :: "notification list \<Rightarrow> error \<Rightarrow> run_result" where
  "failed sent err =
     \<lparr>statusCode = 500, notifications = sent @ [FailureNotification err], generated = None,
      distributionResult = None, archivedReportsRetained = None, archivedReportsDeleted = 0,
      failure = Some err\<rparr>"

definition handler ::
  "(string \<Rightarrow> 'k::linorder) \<Rightarrow> (string \<Rightarrow> js_date) \<Rightarrow> world \<Rightarrow> run_result" where
  "handler localeKey newDate w =
     (case readSourceData w of
        Inl err \<Rightarrow> failed [] err
      | Inr sourceData \<Rightarrow>
     (case normalizeData sourceData (readServicesData w) of
        Inl err \<Rightarrow> failed [] err
      | Inr normalizedData \<Rightarrow>
     (case excelError w of
        Some msg \<Rightarrow> failed [] (ExcelError msg)
      | None \<Rightarrow>
     (case uploadError w of
        Some msg \<Rightarrow> failed [] (UploadError msg)
      | None \<Rightarrow>
          (let dist = distributeReports (copyError w) (distributionBucket w) (distributionKey w);
               (archiveManagementWarning, retainedCount, deletedCount) =
                 (case manageArchiveRetention (archive w) (now w) (archiveRetentionDays w) of
                    Inr (res, store') \<Rightarrow> (None, Some (retained res), deleted res)
                  | Inl retentionError \<Rightarrow> (Some (errorMessage retentionError), None, 0));
               note = (if orElse archiveManagementWarning [] \<noteq> []
                       then WarningNotification (orElse archiveManagementWarning [])
                       else SuccessNotification)
           in case notifyError w of
                Some msg \<Rightarrow> failed [note] (NotificationError msg)
              | None \<Rightarrow>
                  \<lparr>statusCode = 200, notifications = [note],
                   generated = Some (generateExcelReport localeKey newDate normalizedData),
                   distributionResult = Some dist,
                   archivedReportsRetained = retainedCount,
                   archivedReportsDeleted = deletedCount,
                   failure = None\<rparr>)))))"

section \<open>Sample inputs\<close>

definition sampleRegion :: "string \<Rightarrow> string \<Rightarrow> nat \<Rightarrow> region" where
  "sampleRegion c n az =
     \<lparr>r_code = Some c, r_regionCode = None, r_RegionCode = None,
      r_name = Some n, r_regionName = None, r_RegionName = None,
      r_availabilityZones = Some az, r_AvailabilityZones = None,
      r_launchDate = None, r_LaunchDate = None, r_blogUrl = None, r_BlogUrl = None\<rparr>"

definition sampleService :: "string \<Rightarrow> string \<Rightarrow> service" where
  "sampleService c n =
     \<lparr>s_code = Some c, s_serviceCode = None, s_ServiceCode = None,
      s_name = Some n, s_serviceName = None, s_ServiceName = None\<rparr>"

definition sampleMetadata :: metadata where
  "sampleMetadata =
     \<lparr>m_schemaVersion = Some ''1.4.0'', m_version = None,
      m_timestamp = Some ''2025-10-16T02:00:10.000Z''\<rparr>"

text \<open>Two regions, three services; \<open>s3\<close> is everywhere, the others in one region only.\<close>

definition scenarioRegions :: "region list" where
  "scenarioRegions =
     [sampleRegion ''us-east-1'' ''US East (N. Virginia)'' 6,
      sampleRegion ''eu-west-1'' ''Europe (Ireland)'' 3]"

definition scenarioCoverage :: "(string \<times> string list) list" where
  "scenarioCoverage = [(''us-east-1'', [''s3'', ''ec2'', ''lambda'']), (''eu-west-1'', [''s3''])]"

definition scenario :: source_data where
  "scenario =
     \<lparr>sd_metadata = Some sampleMetadata,
      sd_regions = Some scenarioRegions,
      sd_services = Some [sampleService ''s3'' ''s3'', sampleService ''ec2'' ''ec2'',
                          sampleService ''lambda'' ''lambda''],
      sd_servicesByRegion = Some scenarioCoverage\<rparr>"

text \<open>One listed region, and a coverage mapping that also has a key of an unlisted region.\<close>

definition unlistedRegionModel :: source_data where
  "unlistedRegionModel =
     \<lparr>sd_metadata = Some sampleMetadata,
      sd_regions = Some [sampleRegion ''us-east-1'' ''US East (N. Virginia)'' 6],
      sd_services = Some [sampleService ''s3'' ''s3''],
      sd_servicesByRegion = Some [(''us-east-1'', [''s3'']), (''eu-west-1'', [''s3''])]\<rparr>"

text \<open>
  Many regions with numbered codes, and a coverage mapping in which the first \<open>m\<close> of
  them offer the one service \<open>s3\<close>.
\<close>

definition regionCodeNo :: "nat \<Rightarrow> string" where
  "regionCodeNo i = ''region-'' @ showNat i"

definition manyRegions :: "nat \<Rightarrow> region list" where
  "manyRegions n = map (\<lambda>i. sampleRegion (regionCodeNo i) (regionCodeNo i) 3) [0..<n]"

definition partialCoverage :: "nat \<Rightarrow> (string \<times> string list) list" where
  "partialCoverage m = map (\<lambda>i. (regionCodeNo i, [''s3''])) [0..<m]"

definition wideModel :: source_data where
  "wideModel =
     \<lparr>sd_metadata = Some sampleMetadata,
      sd_regions = Some (manyRegions 503),
      sd_services = Some [sampleService ''s3'' ''s3''],
      sd_servicesByRegion = Some (partialCoverage 377)\<rparr>"

text \<open>Two services whose names differ in case only, listed before and after a third.\<close>

definition tieServices :: "service list" where
  "tieServices =
     [sampleService ''s3'' ''S3'', sampleService ''ec2-b'' ''EC2'', sampleService ''ec2-a'' ''ec2'']"

definition tieModel :: source_data where
  "tieModel =
     \<lparr>sd_metadata = Some sampleMetadata,
      sd_regions = Some scenarioRegions,
      sd_services = Some tieServices,
      sd_servicesByRegion = Some [(''us-east-1'', [''s3'', ''ec2-a''])]\<rparr>"

text \<open>
  Source documents: a complete one without a coverage mapping, and the same one
  without its metadata.
\<close>

definition sourceWithoutCoverage :: raw_source where
  "sourceWithoutCoverage =
     \<lparr>raw_metadata = Some sampleMetadata,
      raw_regions = Some (Direct scenarioRegions),
      raw_services = Some (Direct [''s3'', ''ec2'', ''lambda'']),
      raw_servicesByRegion = None\<rparr>"

definition sourceWithoutMetadata :: raw_source where
  "sourceWithoutMetadata =
     \<lparr>raw_metadata = None,
      raw_regions = Some (Direct scenarioRegions),
      raw_services = Some (Direct [''s3'', ''ec2'', ''lambda'']),
      raw_servicesByRegion = None\<rparr>"

text \<open>A world in which every call outside the handler succeeds and the archive is empty.\<close>

definition calmWorld :: "raw_source \<Rightarrow> world" where
  "calmWorld sourceData =
     \<lparr>readSourceData = Inr sourceData,
      readServicesData = [],
      excelError = None,
      uploadError = None,
      copyError = None,
      distributionBucket = None,
      distributionKey = None,
      archive = \<lparr>objects = [], listError = None, deleteFails = []\<rparr>,
      now = 1760580000000,
      archiveRetentionDays = 7,
      notifyError = None\<rparr>"

text \<open>Any text but one date is an invalid date.\<close>

definition sampleNewDate :: "string \<Rightarrow> js_date" where
  "sampleNewDate text =
     (if text = ''2006-08-25'' then ValidDate ''2006-08-25T00:00:00.000Z'' else InvalidDate)"

text \<open>
  Three regions that differ in their launch date: a text that is no date, a date, and
  no launch date at all.
\<close>

definition regionWithLaunchDate :: "string option \<Rightarrow> region" where
  "regionWithLaunchDate d =
     (sampleRegion ''us-east-1'' ''US East (N. Virginia)'' 6)\<lparr>r_launchDate := d\<rparr>"

definition launchDateModel :: source_data where
  "launchDateModel =
     \<lparr>sd_metadata = Some sampleMetadata,
      sd_regions = Some [regionWithLaunchDate (Some ''not-a-date''),
                         regionWithLaunchDate (Some ''2006-08-25''),
                         regionWithLaunchDate None],
      sd_services = Some [sampleService ''s3'' ''s3''],
      sd_servicesByRegion = Some [(''us-east-1'', [''s3''])]\<rparr>"

text \<open>
  An archive of four reports that are 1, 5, 8 and 10 days old at the time \<open>sampleNow\<close>;
  in the second archive the deletion of the 8-day-old report fails.
\<close>

definition sampleNow :: int where
  "sampleNow = 1760580000000"

definition agedObject :: "string \<Rightarrow> int \<Rightarrow> s3_object" where
  "agedObject k ageDays = \<lparr>Key = k, LastModified = sampleNow - ageDays * 86400000\<rparr>"

definition sampleObjects :: "s3_object list" where
  "sampleObjects =
     [agedObject ''archive/report-1.xlsx'' 1, agedObject ''archive/report-5.xlsx'' 5,
      agedObject ''archive/report-8.xlsx'' 8, agedObject ''archive/report-10.xlsx'' 10]"

definition sampleArchive :: s3 where
  "sampleArchive = \<lparr>objects = sampleObjects, listError = None, deleteFails = []\<rparr>"

definition stubbornArchive :: s3 where
  "stubbornArchive =
     \<lparr>objects = sampleObjects, listError = None, deleteFails = [''archive/report-8.xlsx'']\<rparr>"

text \<open>
  A complete source document, and a world in which everything succeeds but the copy to
  the distribution bucket.
\<close>

definition completeSource :: raw_source where
  "completeSource =
     \<lparr>raw_metadata = Some sampleMetadata,
      raw_regions = Some (Wrapped scenarioRegions),
      raw_services = Some (Wrapped [''s3'', ''ec2'', ''lambda'']),
      raw_servicesByRegion =
        Some (RegionObject
          [(''byRegion'',
            RegionObject
              [(''us-east-1'', RegionObject [(''services'', RegionArray [''s3'', ''ec2'', ''lambda''])]),
               (''eu-west-1'', RegionArray [''s3''])])])\<rparr>"

definition mirrorFailureWorld :: world where
  "mirrorFailureWorld =
     \<lparr>readSourceData = Inr completeSource,
      readServicesData = [\<lparr>ns_code = ''s3'', ns_name = Some ''Amazon S3''\<rparr>],
      excelError = None,
      uploadError = None,
      copyError = Some (''Access Denied'', ''AccessDenied''),
      distributionBucket = Some ''www.aws-services.synepho.com'',
      distributionKey = Some ''reports/aws-service-report-latest.xlsx'',
      archive = sampleArchive,
      now = sampleNow,
      archiveRetentionDays = 7,
      notifyError = None\<rparr>"

text \<open>
  Source documents whose coverage mapping is given flat, not nested under \<open>byRegion\<close>:
  one with two regions in the two shapes, and two with the one region code \<open>byRegion\<close>,
  given as the plain array and as the object that wraps it.
\<close>

definition flatSource :: "(string \<times> region_data) list \<Rightarrow> raw_source" where
  "flatSource mapping =
     \<lparr>raw_metadata = Some sampleMetadata,
      raw_regions = Some (Direct scenarioRegions),
      raw_services = Some (Direct [''s3'', ''ec2'', ''lambda'']),
      raw_servicesByRegion = Some (RegionObject mapping)\<rparr>"

definition twoShapes :: "(string \<times> region_data) list" where
  "twoShapes =
     [(''us-east-1'', RegionObject [(''services'', RegionArray [''s3'', ''ec2'', ''lambda''])]),
      (''eu-west-1'', RegionArray [''s3''])]"

definition byRegionAsArray :: raw_source where
  "byRegionAsArray = flatSource [(''byRegion'', RegionArray [''ec2'', ''s3''])]"

definition byRegionAsObject :: raw_source where
  "byRegionAsObject =
     flatSource [(''byRegion'', RegionObject [(''services'', RegionArray [''ec2'', ''s3''])])]"



text \<open>A collation that orders strings by their code units.\<close>

definition codeUnitKey :: "string \<Rightarrow> string" where
  "codeUnitKey s = s"

text \<open>One listed region whose coverage list names the service twice.\<close>

definition repeatedCodeModel :: source_data where
  "repeatedCodeModel =
     \<lparr>sd_metadata = Some sampleMetadata,
      sd_regions = Some [sampleRegion ''us-east-1'' ''US East (N. Virginia)'' 6],
      sd_services = Some [sampleService ''s3'' ''s3''],
      sd_servicesByRegion = Some [(''us-east-1'', [''s3'', ''s3''])]\<rparr>"

text \<open>No region at all.\<close>

definition noRegionModel :: source_data where
  "noRegionModel =
     \<lparr>sd_metadata = Some sampleMetadata,
      sd_regions = Some [],
      sd_services = Some [sampleService ''s3'' ''s3''],
      sd_servicesByRegion = Some []\<rparr>"

section \<open>Properties of the number formatting\<close>

lemma lt10_cases: "d < 10 \<Longrightarrow> d = 0 \<or> d = 1 \<or> d = 2 \<or> d = 3 \<or> d = 4 \<or> d = 5 \<or> d = 6 \<or> d = 7 \<or> d = 8 \<or> d = (9::nat)"
  by arith

lemma digitVal_digitChar: "d < 10 \<Longrightarrow> digitVal (digitChar d) = d"
  by (drule lt10_cases) (auto simp: digitVal_def digitChar_def)

lemma isDigit_digitChar: "d < 10 \<Longrightarrow> isDigit (digitChar d)"
  by (drule lt10_cases) (auto simp: isDigit_def digitChar_def)

lemma showNat_digits: "\<forall>c \<in> set (showNat n). isDigit c"
proof (induction n rule: showNat.induct)
  case (1 n)
  show ?case
  proof (cases "n < 10")
    case True
    then show ?thesis by (subst showNat.simps) (simp add: isDigit_digitChar)
  next
    case False
    with 1 show ?thesis by (subst showNat.simps) (simp add: isDigit_digitChar)
  qed
qed

lemma showNat_nonempty: "showNat n \<noteq> []"
  by (subst showNat.simps) simp

lemma natOfDigits_snoc: "natOfDigits (xs @ [c]) = 10 * natOfDigits xs + digitVal c"
  by (simp add: natOfDigits_def)

lemma natOfDigits_showNat: "natOfDigits (showNat n) = n"
proof (induction n rule: showNat.induct)
  case (1 n)
  show ?case
  proof (cases "n < 10")
    case True
    then show ?thesis by (subst showNat.simps) (simp add: natOfDigits_def digitVal_digitChar)
  next
    case False
    with 1 show ?thesis
      by (subst showNat.simps) (simp add: natOfDigits_snoc digitVal_digitChar)
  qed
qed

lemma showNat_digit: "d < 10 \<Longrightarrow> showNat d = [digitChar d]"
  by (subst showNat.simps) simp

lemma not_isDigit_dot: "\<not> isDigit CHR ''.''" "\<not> isDigit CHR ''%''"
  by (simp_all add: isDigit_def)

lemma takeWhile_digits: "\<forall>c \<in> set ds. isDigit c \<Longrightarrow> \<not> isDigit x \<Longrightarrow> takeWhile isDigit (ds @ x # r) = ds"
  by (simp add: takeWhile_append2)

lemma dropWhile_digits: "\<forall>c \<in> set ds. isDigit c \<Longrightarrow> \<not> isDigit x \<Longrightarrow> dropWhile isDigit (ds @ x # r) = x # r"
  by (simp add: dropWhile_append2)

lemma natOfDigits_single: "natOfDigits [c] = digitVal c"
  by (simp add: natOfDigits_def)

lemma parseFloat_decimal:
  assumes "d < 10"
  shows "parseFloat (showNat a @ ''.'' @ showNat d) = Some (of_nat a + of_nat d / 10)"
proof -
  have tw: "takeWhile isDigit (showNat a @ CHR ''.'' # [digitChar d]) = showNat a"
    by (rule takeWhile_digits) (simp_all add: showNat_digits not_isDigit_dot)
  have dw: "dropWhile isDigit (showNat a @ CHR ''.'' # [digitChar d]) = CHR ''.'' # [digitChar d]"
    by (rule dropWhile_digits) (simp_all add: showNat_digits not_isDigit_dot)
  show ?thesis using assms
    by (simp add: parseFloat_def showNat_digit tw dw isDigit_digitChar showNat_nonempty
        natOfDigits_showNat natOfDigits_single digitVal_digitChar)
qed

lemma parseFloat_toFixed1:
  assumes "0 \<le> x"
  shows "parseFloat (toFixed1 x) = Some (of_nat (nat \<lfloor>x * 10 + 1 / 2\<rfloor>) / 10)"
proof -
  let ?n = "nat \<lfloor>x * 10 + 1 / 2\<rfloor>"
  have "toFixed1 x = showNat (?n div 10) @ ''.'' @ showNat (?n mod 10)"
    using assms by (simp add: toFixed1_def Let_def)
  moreover have "parseFloat (showNat (?n div 10) @ ''.'' @ showNat (?n mod 10))
      = Some (of_nat (?n div 10) + of_nat (?n mod 10) / 10)"
    by (rule parseFloat_decimal) simp
  moreover have "(of_nat (?n div 10) + of_nat (?n mod 10) / 10 :: rat) = of_nat ?n / 10"
  proof -
    have "(of_nat ?n :: rat) = of_nat (10 * (?n div 10) + ?n mod 10)" by simp
    also have "\<dots> = 10 * of_nat (?n div 10) + of_nat (?n mod 10)"
      by (simp only: of_nat_add of_nat_mult of_nat_numeral)
    finally show ?thesis by simp
  qed
  ultimately show ?thesis by simp
qed

lemma percent_tenths:
  assumes "0 < t"
  shows "nat \<lfloor>(of_nat c / of_nat t) * 100 * 10 + (1 / 2 :: rat)\<rfloor> = (2000 * c + t) div (2 * t)"
proof -
  have "(of_nat c / of_nat t) * 100 * 10 + (1 / 2 :: rat) = of_nat (2000 * c + t) / of_nat (2 * t)"
    using assms by (simp add: field_simps)
  then have "\<lfloor>(of_nat c / of_nat t) * 100 * 10 + (1 / 2 :: rat)\<rfloor> = \<lfloor>(of_nat (2000 * c + t) / of_nat (2 * t) :: rat)\<rfloor>"
    by simp
  also have "\<dots> = int ((2000 * c + t) div (2 * t))"
    by (simp only: floor_divide_of_nat_eq)
  finally show ?thesis by simp
qed


lemma toFixed1_nonneg:
  assumes "0 \<le> x"
  shows "toFixed1 x = showNat (nat \<lfloor>x * 10 + 1 / 2\<rfloor> div 10) @ ''.'' @ showNat (nat \<lfloor>x * 10 + 1 / 2\<rfloor> mod 10)"
  using assms by (simp add: toFixed1_def Let_def)

lemma coveragePercent_pos:
  assumes "0 < t"
  shows "coveragePercent c t =
           showNat ((2000 * c + t) div (2 * t) div 10) @ ''.'' @ showNat ((2000 * c + t) div (2 * t) mod 10)"
proof -
  have nn: "(0::rat) \<le> of_nat c / of_nat t * 100" by simp
  have "coveragePercent c t = toFixed1 (of_nat c / of_nat t * 100)"
    using assms by (simp only: coveragePercent_def if_True)
  also have "\<dots> = showNat (nat \<lfloor>of_nat c / of_nat t * 100 * 10 + (1 / 2 :: rat)\<rfloor> div 10) @ ''.'' @
      showNat (nat \<lfloor>of_nat c / of_nat t * 100 * 10 + (1 / 2 :: rat)\<rfloor> mod 10)"
    by (rule toFixed1_nonneg [OF nn])
  finally show ?thesis by (simp only: percent_tenths [OF assms])
qed

lemma coveragePercent_zero: "coveragePercent c 0 = ''0''"
  by (simp add: coveragePercent_def)

lemma parseFloat_coveragePercent_pos:
  assumes "0 < t"
  shows "parseFloat (coveragePercent c t) = Some (of_nat ((2000 * c + t) div (2 * t)) / 10)"
proof -
  have nn: "(0::rat) \<le> of_nat c / of_nat t * 100" by simp
  have "coveragePercent c t = toFixed1 (of_nat c / of_nat t * 100)"
    using assms by (simp only: coveragePercent_def if_True)
  then have "parseFloat (coveragePercent c t)
      = Some (of_nat (nat \<lfloor>of_nat c / of_nat t * 100 * 10 + (1 / 2 :: rat)\<rfloor>) / 10)"
    by (simp only: parseFloat_toFixed1 [OF nn])
  then show ?thesis by (simp only: percent_tenths [OF assms])
qed

lemma parseFloat_zero: "parseFloat ''0'' = Some 0"
  by (simp add: parseFloat_def isDigit_def natOfDigits_def digitVal_def)

subsection \<open>Counting the regions of a service\<close>


lemma getOrZero_bump: "getOrZero (bumpCount m x) c = getOrZero m c + (if x = c then 1 else 0)"
  by (simp add: getOrZero_def bumpCount_def)

lemma getOrZero_fold_bump:
  "getOrZero (fold (\<lambda>serviceCode m'. bumpCount m' serviceCode) xs m) c = getOrZero m c + count_list xs c"
  by (induction xs arbitrary: m) (auto simp: getOrZero_bump)

lemma getOrZero_fold_keys:
  "getOrZero (fold (\<lambda>regionCode m. fold (\<lambda>serviceCode m'. bumpCount m' serviceCode) (f regionCode) m) ks m0) c
     = getOrZero m0 c + sum_list (map (\<lambda>k. count_list (f k) c) ks)"
  by (induction ks arbitrary: m0) (simp_all add: getOrZero_fold_bump)

lemma getOrZero_serviceRegionCounts:
  "getOrZero (serviceRegionCounts sbr) c =
     sum_list (map (\<lambda>k. count_list (lookupOrEmpty sbr k) c) (map fst sbr))"
proof -
  have "getOrZero (serviceRegionCounts sbr) c
      = getOrZero Map.empty c + sum_list (map (\<lambda>k. count_list (lookupOrEmpty sbr k) c) (map fst sbr))"
    unfolding serviceRegionCounts_def by (rule getOrZero_fold_keys)
  then show ?thesis by (simp add: getOrZero_def)
qed

lemma count_list_distinct: "distinct xs \<Longrightarrow> count_list xs c = (if c \<in> set xs then 1 else 0)"
  by (induction xs) auto

lemma sum_list_indicator: "sum_list (map (\<lambda>k. if P k then 1 else 0) ks) = length (filter P ks)"
  by (induction ks) auto

lemma lookupOrEmpty_distinct_entry:
  "distinct (map fst sbr) \<Longrightarrow> (k, xs) \<in> set sbr \<Longrightarrow> lookupOrEmpty sbr k = xs"
  by (simp add: lookupOrEmpty_def orEmpty_def)

lemma lookupOrEmpty_missing:
  assumes "k \<notin> fst ` set sbr"
  shows "lookupOrEmpty sbr k = []"
proof -
  from assms have "map_of sbr k = None" by (simp add: map_of_eq_None_iff)
  then show ?thesis by (simp add: lookupOrEmpty_def orEmpty_def)
qed

lemma length_filter_card:
  "distinct ks \<Longrightarrow> length (filter P ks) = card {k \<in> set ks. P k}"
proof -
  assume "distinct ks"
  then have "distinct (filter P ks)" by simp
  then have "card (set (filter P ks)) = length (filter P ks)" by (rule distinct_card)
  moreover have "set (filter P ks) = {k \<in> set ks. P k}" by auto
  ultimately show ?thesis by simp
qed

lemma count_valid:
  assumes keys: "distinct (map fst sbr)"
    and sets: "\<forall>(k, xs) \<in> set sbr. distinct xs"
  shows "getOrZero (serviceRegionCounts sbr) c = card {k \<in> fst ` set sbr. c \<in> set (lookupOrEmpty sbr k)}"
proof -
  define ks where "ks = map fst sbr"
  have dks: "distinct ks" and sks: "set ks = fst ` set sbr" using keys by (simp_all add: ks_def)
  have d: "distinct (lookupOrEmpty sbr k)" if "k \<in> set ks" for k
  proof -
    from that obtain xs where in_sbr: "(k, xs) \<in> set sbr" by (auto simp: ks_def)
    with sets have "distinct xs" by auto
    with lookupOrEmpty_distinct_entry [OF keys in_sbr] show ?thesis by simp
  qed
  have "getOrZero (serviceRegionCounts sbr) c
      = sum_list (map (\<lambda>k. count_list (lookupOrEmpty sbr k) c) ks)"
    unfolding ks_def by (rule getOrZero_serviceRegionCounts)
  also have "\<dots> = sum_list (map (\<lambda>k. if c \<in> set (lookupOrEmpty sbr k) then 1 else 0) ks)"
    by (rule arg_cong [where f = sum_list], rule map_cong [OF refl]) (simp add: count_list_distinct d)
  also have "\<dots> = length (filter (\<lambda>k. c \<in> set (lookupOrEmpty sbr k)) ks)"
    by (rule sum_list_indicator)
  also have "\<dots> = card {k \<in> set ks. c \<in> set (lookupOrEmpty sbr k)}"
    by (rule length_filter_card [OF dks])
  finally show ?thesis by (simp only: sks)
qed

lemma count_valid_regions:
  assumes keys: "distinct (map fst sbr)"
    and sets: "\<forall>(k, xs) \<in> set sbr. distinct xs"
    and known: "fst ` set sbr \<subseteq> regionCodeOf ` set regions"
  shows "getOrZero (serviceRegionCounts sbr) c
           = card {r \<in> regionCodeOf ` set regions. c \<in> set (lookupOrEmpty sbr r)}"
    and "getOrZero (serviceRegionCounts sbr) c \<le> length regions"
proof -
  have eq: "{k \<in> fst ` set sbr. c \<in> set (lookupOrEmpty sbr k)}
      = {r \<in> regionCodeOf ` set regions. c \<in> set (lookupOrEmpty sbr r)}" (is "?A = ?B")
  proof
    show "?A \<subseteq> ?B" using known by auto
    show "?B \<subseteq> ?A"
    proof
      fix r assume "r \<in> ?B"
      then have m: "c \<in> set (lookupOrEmpty sbr r)" by simp
      have "r \<in> fst ` set sbr"
      proof (rule ccontr)
        assume "r \<notin> fst ` set sbr"
        then have "lookupOrEmpty sbr r = []" by (rule lookupOrEmpty_missing)
        with m show False by simp
      qed
      with m show "r \<in> ?A" by simp
    qed
  qed
  show c1: "getOrZero (serviceRegionCounts sbr) c = card ?B"
    using count_valid [OF keys sets, of c] eq by simp
  have "card ?B \<le> card (regionCodeOf ` set regions)"
    by (rule card_mono) auto
  also have "\<dots> \<le> card (set regions)" by (rule card_image_le) simp
  also have "\<dots> \<le> length regions" by (rule card_length)
  finally show "getOrZero (serviceRegionCounts sbr) c \<le> length regions" using c1 by simp
qed

section \<open>Properties of the Services sheet\<close>

lemma services_row_form:
  assumes "row \<in> set (createServicesSheet localeKey sd)"
  shows "\<exists>s \<in> set (orEmpty (sd_services sd)).
           row = serviceRow (length (orEmpty (sd_regions sd)))
                   (serviceRegionCounts (orEmpty (sd_servicesByRegion sd))) s"
  using assms by (auto simp: createServicesSheet_def sortedServicesBy_def Let_def)

lemma not_isDigit_percent: "\<not> isDigit CHR ''%''"
  by (simp add: isDigit_def)

lemma parseFloat_ignores_percent:
  "parseFloat (showNat a @ CHR ''.'' # showNat d @ [CHR ''%'']) = parseFloat (showNat a @ CHR ''.'' # showNat d)"
proof -
  have tw: "takeWhile isDigit (showNat a @ CHR ''.'' # r) = showNat a" for r
    by (rule takeWhile_digits) (simp_all add: showNat_digits not_isDigit_dot)
  have dw: "dropWhile isDigit (showNat a @ CHR ''.'' # r) = CHR ''.'' # r" for r
    by (rule dropWhile_digits) (simp_all add: showNat_digits not_isDigit_dot)
  have t2: "takeWhile isDigit (showNat d @ ''%'') = showNat d"
    using takeWhile_digits [of "showNat d" "CHR ''%''" "[]"]
    by (simp add: showNat_digits not_isDigit_percent)
  have t3: "takeWhile isDigit (showNat d) = showNat d"
    by (simp add: showNat_digits takeWhile_eq_all_conv)
  show ?thesis by (simp add: parseFloat_def tw dw t2 t3)
qed

lemma parseFloat_cell:
  "parseFloat (coveragePercentCell (serviceRow t counts s)) =
     parseFloat (coveragePercent (getOrZero counts (serviceCodeOf s)) t)"
proof (cases "0 < t")
  case True
  then show ?thesis
    by (simp add: serviceRow_def Let_def coveragePercent_pos parseFloat_ignores_percent)
next
  case False
  then show ?thesis
    by (simp add: serviceRow_def Let_def coveragePercent_zero parseFloat_def isDigit_def)
qed

lemma tenths_round:
  assumes "0 < t"
  shows "(of_nat ((2000 * c + t) div (2 * t)) :: rat) = of_int (round (100 * of_nat c / of_nat t * 10 :: rat))"
proof -
  have "round (100 * of_nat c / of_nat t * 10 :: rat) = \<lfloor>of_nat c / of_nat t * 100 * 10 + (1 / 2 :: rat)\<rfloor>"
    by (simp add: round_def)
  moreover have "0 \<le> \<lfloor>of_nat c / of_nat t * 100 * 10 + (1 / 2 :: rat)\<rfloor>" by simp
  ultimately have "int (nat \<lfloor>of_nat c / of_nat t * 100 * 10 + (1 / 2 :: rat)\<rfloor>) = round (100 * of_nat c / of_nat t * 10 :: rat)"
    by simp
  then have "int ((2000 * c + t) div (2 * t)) = round (100 * of_nat c / of_nat t * 10 :: rat)"
    by (simp only: percent_tenths [OF assms])
  then have "(of_int (int ((2000 * c + t) div (2 * t))) :: rat) = of_int (round (100 * of_nat c / of_nat t * 10 :: rat))"
    by simp
  then show ?thesis by simp
qed

lemma tenths_le:
  assumes "0 < t" "c \<le> t"
  shows "(2000 * c + t) div (2 * t) \<le> (1000::nat)"
proof -
  have "2000 * c + t < 2 * t * 1001" using assms by simp
  then have "(2000 * c + t) div (2 * t) < 1001" using assms by (simp add: div_less_iff_less_mult)
  then show ?thesis by simp
qed

lemma percent_cell_cases:
  "coveragePercentCell (serviceRow t counts s) =
     (if 0 < t then
        showNat ((2000 * getOrZero counts (serviceCodeOf s) + t) div (2 * t) div 10) @ ''.'' @
        [digitChar ((2000 * getOrZero counts (serviceCodeOf s) + t) div (2 * t) mod 10)] @ ''%''
      else ''0%'')"
  by (simp add: serviceRow_def Let_def coveragePercent_pos coveragePercent_zero showNat_digit)


lemmas eval_defs = createServicesSheet_def sortedServicesBy_def servicesSortName_def orElse_def
  toLowerCase_def toLowerChar_def serviceRow_def serviceRegionCounts_def lookupOrEmpty_def
  orEmpty_def bumpCount_def getOrZero_def serviceCodeOf_def serviceNameOf_def
  coveragePercent_pos coveragePercent_zero showNat.simps digitChar_def parseFloat_def isDigit_def
  natOfDigits_def digitVal_def percentFont_def Let_def codeUnitKey_def
  sampleService_def sampleRegion_def scenario_def scenarioRegions_def scenarioCoverage_def
  unlistedRegionModel_def repeatedCodeModel_def noRegionModel_def

lemma scenario_sheet:
  "createServicesSheet codeUnitKey scenario =
     [\<lparr>serviceCode = ''ec2'', serviceName = ''ec2'', availableRegions = 1,
        coveragePercentCell = ''50.0%'', coveragePercentFont = orange\<rparr>,
      \<lparr>serviceCode = ''lambda'', serviceName = ''lambda'', availableRegions = 1,
        coveragePercentCell = ''50.0%'', coveragePercentFont = orange\<rparr>,
      \<lparr>serviceCode = ''s3'', serviceName = ''s3'', availableRegions = 2,
        coveragePercentCell = ''100.0%'', coveragePercentFont = greenBold\<rparr>]"
  by (simp add: eval_defs)

lemma unlisted_sheet:
  "createServicesSheet codeUnitKey unlistedRegionModel =
     [\<lparr>serviceCode = ''s3'', serviceName = ''s3'', availableRegions = 2,
        coveragePercentCell = ''200.0%'', coveragePercentFont = lightGreen\<rparr>]"
  by (simp add: eval_defs)

lemma noregion_sheet:
  "createServicesSheet codeUnitKey noRegionModel =
     [\<lparr>serviceCode = ''s3'', serviceName = ''s3'', availableRegions = 0,
        coveragePercentCell = ''0%'', coveragePercentFont = grayItalic\<rparr>]"
  by (simp add: eval_defs)

subsection \<open>The text of the percentage cell\<close>

text \<open>
  Claim C10. The coverage-percentage cell of every row of the Services sheet ends in a
  percent sign. When the model has at least one region, the cell is a non-empty run of
  digits, a point, exactly one digit and the percent sign, so it is never \<open>0%\<close>; when the
  model has no region, the cell is exactly \<open>0%\<close>.
\<close>

theorem coverage_cell_text:
  assumes "row \<in> set (createServicesSheet localeKey sd)"
  shows "last (coveragePercentCell row) = CHR ''%'' \<and>
         (if orEmpty (sd_regions sd) = [] then coveragePercentCell row = ''0%''
          else \<exists>ds d. coveragePercentCell row = ds @ [CHR ''.'', d, CHR ''%''] \<and>
                      ds \<noteq> [] \<and> list_all isDigit ds \<and> isDigit d \<and>
                      coveragePercentCell row \<noteq> ''0%'')"
proof -
  from services_row_form [OF assms] obtain s where
    row: "row = serviceRow (length (orEmpty (sd_regions sd)))
                  (serviceRegionCounts (orEmpty (sd_servicesByRegion sd))) s"
    by blast
  let ?t = "length (orEmpty (sd_regions sd))"
  let ?n = "(2000 * getOrZero (serviceRegionCounts (orEmpty (sd_servicesByRegion sd))) (serviceCodeOf s) + ?t) div (2 * ?t)"
  show ?thesis
  proof (cases "orEmpty (sd_regions sd) = []")
    case True
    then show ?thesis by (simp add: row percent_cell_cases)
  next
    case False
    then have cell: "coveragePercentCell row = showNat (?n div 10) @ [CHR ''.'', digitChar (?n mod 10), CHR ''%'']"
      by (simp add: row percent_cell_cases)
    have "list_all isDigit (showNat (?n div 10))"
      using showNat_digits [of "?n div 10"] by (simp add: list_all_iff)
    moreover have "isDigit (digitChar (?n mod 10))" by (rule isDigit_digitChar) simp
    moreover have "coveragePercentCell row \<noteq> ''0%''"
      using showNat_nonempty [of "?n div 10"] by (cases "showNat (?n div 10)") (simp_all add: cell)
    ultimately have "\<exists>ds d. coveragePercentCell row = ds @ [CHR ''.'', d, CHR ''%''] \<and>
                      ds \<noteq> [] \<and> list_all isDigit ds \<and> isDigit d \<and>
                      coveragePercentCell row \<noteq> ''0%''"
      using cell showNat_nonempty by blast
    moreover have "last (coveragePercentCell row) = CHR ''%''" by (simp add: cell)
    ultimately show ?thesis using False by simp
  qed
qed


theorem coverage_cell_text_witness:
  "\<lparr>serviceCode = ''ec2'', serviceName = ''ec2'', availableRegions = 1,
     coveragePercentCell = ''50.0%'', coveragePercentFont = orange\<rparr>
     \<in> set (createServicesSheet codeUnitKey scenario) \<and>
   orEmpty (sd_regions scenario) \<noteq> [] \<and>
   last ''50.0%'' = CHR ''%'' \<and>
   (\<exists>ds d. ''50.0%'' = ds @ [CHR ''.'', d, CHR ''%''] \<and> ds \<noteq> [] \<and> list_all isDigit ds \<and>
      isDigit d \<and> ''50.0%'' \<noteq> ''0%'')"
proof -
  let ?row = "\<lparr>serviceCode = ''ec2'', serviceName = ''ec2'', availableRegions = 1,
     coveragePercentCell = ''50.0%'', coveragePercentFont = orange\<rparr>"
  have m: "?row \<in> set (createServicesSheet codeUnitKey scenario)"
    by (simp add: scenario_sheet)
  have r: "orEmpty (sd_regions scenario) \<noteq> []"
    by (simp add: scenario_def scenarioRegions_def orEmpty_def)
  from coverage_cell_text [OF m] r m show ?thesis by simp
qed

subsection \<open>The coverage percentage\<close>

text \<open>
  Claim C1, as it holds on the code. Take a model in which the keys of the coverage
  mapping are distinct, every key is the code of a listed region and no list of the
  mapping names a service twice. Then, for every row of the Services sheet, the
  available-region count is the number of region codes whose coverage list contains
  the service code, and the number that the percentage cell shows lies between 0 and
  100; it is 0 when there is no region, and otherwise 100 times the count divided by
  the number of regions, rounded to one decimal: a multiple of 0.1 that is at most 0.05
  away from the exact quotient. Where the exact quotient lies halfway between two tenths
  (23 of 80 regions, 28.75) the statement leaves open which of the two is shown: the
  code rounds the floating-point quotient, which may lie on either side of the tie, while
  \<open>toFixed1\<close> here rounds the exact quotient half up.
\<close>

theorem coverage_percentage_valid_model:
  assumes keys: "distinct (map fst sbr)"
    and sets: "\<forall>(k, xs) \<in> set sbr. distinct xs"
    and known: "fst ` set sbr \<subseteq> regionCodeOf ` set regions"
    and regs: "sd_regions sd = Some regions"
    and cov: "sd_servicesByRegion sd = Some sbr"
    and row: "row \<in> set (createServicesSheet localeKey sd)"
  shows "availableRegions row =
           card {r \<in> regionCodeOf ` set regions. serviceCode row \<in> set (lookupOrEmpty sbr r)} \<and>
         (\<exists>p. parseFloat (coveragePercentCell row) = Some p \<and> 0 \<le> p \<and> p \<le> 100 \<and>
              (if regions = [] then p = 0
               else (\<exists>n::nat. p = of_nat n / 10) \<and>
                    \<bar>p - 100 * of_nat (availableRegions row) / of_nat (length regions)\<bar> \<le> 1 / 20))"
proof -
  from services_row_form [OF row] regs cov obtain s where
    r: "row = serviceRow (length regions) (serviceRegionCounts sbr) s"
    by (auto simp: orEmpty_def)
  let ?c = "getOrZero (serviceRegionCounts sbr) (serviceCodeOf s)"
  let ?t = "length regions"
  have code: "serviceCode row = serviceCodeOf s" and av: "availableRegions row = ?c"
    by (simp_all add: r serviceRow_def Let_def)
  have cnt: "?c = card {r \<in> regionCodeOf ` set regions. serviceCodeOf s \<in> set (lookupOrEmpty sbr r)}"
    and le: "?c \<le> ?t"
    using count_valid_regions [OF keys sets known] by blast+
  have pf: "parseFloat (coveragePercentCell row) = parseFloat (coveragePercent ?c ?t)"
    by (simp add: r parseFloat_cell)
  have first: "availableRegions row =
      card {r \<in> regionCodeOf ` set regions. serviceCode row \<in> set (lookupOrEmpty sbr r)}"
    by (simp only: av code cnt)
  have second: "\<exists>p. parseFloat (coveragePercentCell row) = Some p \<and> 0 \<le> p \<and> p \<le> 100 \<and>
      (if regions = [] then p = 0
       else (\<exists>n::nat. p = of_nat n / 10) \<and>
            \<bar>p - 100 * of_nat (availableRegions row) / of_nat (length regions)\<bar> \<le> 1 / 20)"
  proof (cases "regions = []")
    case True
    then have "parseFloat (coveragePercentCell row) = Some 0"
      by (simp add: pf coveragePercent_zero parseFloat_zero)
    with True show ?thesis by simp
  next
    case False
    then have pos: "0 < ?t" by simp
    let ?n = "(2000 * ?c + ?t) div (2 * ?t)"
    let ?y = "100 * of_nat ?c / of_nat ?t * 10 :: rat"
    have p: "parseFloat (coveragePercentCell row) = Some (of_nat ?n / 10)"
      by (simp only: pf parseFloat_coveragePercent_pos [OF pos])
    have "?n \<le> 1000" by (rule tenths_le [OF pos le])
    then have "(of_nat ?n :: rat) \<le> of_nat 1000" by (simp only: of_nat_le_iff)
    then have up: "(of_nat ?n / 10 :: rat) \<le> 100" by simp
    have lo: "(0::rat) \<le> of_nat ?n / 10" by simp
    have rd: "(of_nat ?n :: rat) = of_int (round ?y)"
      by (rule tenths_round [OF pos])
    have "\<bar>of_int (round ?y) - ?y\<bar> \<le> 1 / 2" by (rule of_int_round_abs_le)
    then have "\<bar>(of_nat ?n :: rat) - ?y\<bar> \<le> 1 / 2" by (simp only: rd)
    moreover have "(of_nat ?n / 10 :: rat) - 100 * of_nat ?c / of_nat ?t = (of_nat ?n - ?y) / 10"
      by (simp add: field_simps)
    ultimately have near: "\<bar>(of_nat ?n / 10 :: rat) - 100 * of_nat ?c / of_nat ?t\<bar> \<le> 1 / 20"
      by (simp only: abs_divide)
    have tenth: "\<exists>n::nat. (of_nat ?n / 10 :: rat) = of_nat n / 10" by (rule exI [of _ ?n]) (rule refl)
    show ?thesis unfolding av
    proof (intro exI conjI)
      show "parseFloat (coveragePercentCell row) = Some (of_nat ?n / 10)" by (rule p)
      show "(0::rat) \<le> of_nat ?n / 10" by (rule lo)
      show "(of_nat ?n / 10 :: rat) \<le> 100" by (rule up)
      show "if regions = [] then (of_nat ?n / 10 :: rat) = 0
            else (\<exists>n::nat. (of_nat ?n / 10 :: rat) = of_nat n / 10) \<and>
                 \<bar>(of_nat ?n / 10 :: rat) - 100 * of_nat ?c / of_nat ?t\<bar> \<le> 1 / 20"
        using False tenth near by (simp only: if_False)
    qed
  qed
  from first second show ?thesis by (rule conjI)
qed

theorem coverage_percentage_valid_model_witness:
  "distinct (map fst scenarioCoverage) \<and>
   fst ` set scenarioCoverage \<subseteq> regionCodeOf ` set scenarioRegions \<and>
   \<lparr>serviceCode = ''ec2'', serviceName = ''ec2'', availableRegions = 1,
     coveragePercentCell = ''50.0%'', coveragePercentFont = orange\<rparr>
     \<in> set (createServicesSheet codeUnitKey scenario) \<and>
   1 = card {r \<in> regionCodeOf ` set scenarioRegions. ''ec2'' \<in> set (lookupOrEmpty scenarioCoverage r)} \<and>
   parseFloat ''50.0%'' = Some 50 \<and>
   \<bar>(50::rat) - 100 * of_nat 1 / of_nat (length scenarioRegions)\<bar> \<le> 1 / 20"
proof -
  let ?row = "\<lparr>serviceCode = ''ec2'', serviceName = ''ec2'', availableRegions = 1,
     coveragePercentCell = ''50.0%'', coveragePercentFont = orange\<rparr>"
  have keys: "distinct (map fst scenarioCoverage)"
    by (simp add: scenarioCoverage_def)
  have sets: "\<forall>(k, xs) \<in> set scenarioCoverage. distinct xs"
    by (simp add: scenarioCoverage_def)
  have known: "fst ` set scenarioCoverage \<subseteq> regionCodeOf ` set scenarioRegions"
    by (simp add: scenarioCoverage_def scenarioRegions_def regionCodeOf_def sampleRegion_def orElse_def)
  have regs: "sd_regions scenario = Some scenarioRegions"
    and cov: "sd_servicesByRegion scenario = Some scenarioCoverage"
    by (simp_all add: scenario_def)
  have m: "?row \<in> set (createServicesSheet codeUnitKey scenario)"
    by (simp add: scenario_sheet)
  have ne: "scenarioRegions \<noteq> []" by (simp add: scenarioRegions_def)
  have pf: "parseFloat ''50.0%'' = Some 50" by (simp add: eval_defs)
  from coverage_percentage_valid_model [OF keys sets known regs cov m]
  have a: "availableRegions ?row =
      card {r \<in> regionCodeOf ` set scenarioRegions. serviceCode ?row \<in> set (lookupOrEmpty scenarioCoverage r)}"
    and b: "\<exists>p. parseFloat (coveragePercentCell ?row) = Some p \<and> 0 \<le> p \<and> p \<le> 100 \<and>
      (if scenarioRegions = [] then p = 0
       else (\<exists>n::nat. p = of_nat n / 10) \<and>
            \<bar>p - 100 * of_nat (availableRegions ?row) / of_nat (length scenarioRegions)\<bar> \<le> 1 / 20)"
    by blast+
  from a have a': "1 = card {r \<in> regionCodeOf ` set scenarioRegions. ''ec2'' \<in> set (lookupOrEmpty scenarioCoverage r)}"
    by simp
  from b pf ne
  have c': "\<bar>(50::rat) - 100 * of_nat 1 / of_nat (length scenarioRegions)\<bar> \<le> 1 / 20"
    by auto
  from keys known m a' pf c' show ?thesis by (intro conjI)
qed

text \<open>
  The claim as stated fails on a model whose coverage mapping has a key that is not a
  listed region: with one listed region and the service under two keys, the cell shows
  200.0%, above 100. It fails in the same way on a model whose one region lists the
  service twice.
\<close>

theorem coverage_percentage_counterexample:
  "createServicesSheet codeUnitKey unlistedRegionModel =
     [\<lparr>serviceCode = ''s3'', serviceName = ''s3'', availableRegions = 2,
        coveragePercentCell = ''200.0%'', coveragePercentFont = lightGreen\<rparr>] \<and>
   createServicesSheet codeUnitKey repeatedCodeModel =
     [\<lparr>serviceCode = ''s3'', serviceName = ''s3'', availableRegions = 2,
        coveragePercentCell = ''200.0%'', coveragePercentFont = lightGreen\<rparr>] \<and>
   parseFloat ''200.0%'' = Some 200 \<and> \<not> (200 \<le> (100::rat))"
  by (simp add: unlisted_sheet) (simp add: eval_defs)

subsection \<open>The colour of the percentage cell\<close>

lemma tenths_ge:
  assumes "0 < t"
  shows "(k \<le> (2000 * c + t) div (2 * t)) = ((2 * of_nat k - 1) / 20 \<le> (100 * of_nat c / of_nat t :: rat))"
proof -
  have "(k \<le> (2000 * c + t) div (2 * t)) = (k * (2 * t) \<le> 2000 * c + t)"
    using assms by (simp add: less_eq_div_iff_mult_less_eq)
  also have "\<dots> = ((of_nat (k * (2 * t)) :: rat) \<le> of_nat (2000 * c + t))"
    by (simp only: of_nat_le_iff)
  also have "\<dots> = ((2 * of_nat k - 1) / 20 \<le> (100 * of_nat c / of_nat t :: rat))"
    using assms by (simp add: field_simps)
  finally show ?thesis .
qed

lemma percentFont_tenths:
  "percentFont (Some (of_nat n / 10)) =
     (if n = 1000 then greenBold else if 750 \<le> n then lightGreen
      else if 500 \<le> n then orange else if 1 \<le> n then red else grayItalic)"
proof -
  have e: "((of_nat n / 10 :: rat) = 100) = (n = 1000)"
  proof -
    have "((of_nat n / 10 :: rat) = 100) = ((of_nat n :: rat) = of_nat 1000)" by auto
    also have "\<dots> = (n = 1000)" by (simp only: of_nat_eq_iff)
    finally show ?thesis .
  qed
  have g: "((r::rat) \<le> of_nat n / 10) = (r * 10 \<le> of_nat n)" for r by (simp add: field_simps)
  have a: "((75::rat) \<le> of_nat n / 10) = (750 \<le> n)"
  proof -
    have "((75::rat) \<le> of_nat n / 10) = ((of_nat 750 :: rat) \<le> of_nat n)" by (simp add: g)
    also have "\<dots> = (750 \<le> n)" by (simp only: of_nat_le_iff)
    finally show ?thesis .
  qed
  have b: "((50::rat) \<le> of_nat n / 10) = (500 \<le> n)"
  proof -
    have "((50::rat) \<le> of_nat n / 10) = ((of_nat 500 :: rat) \<le> of_nat n)" by (simp add: g)
    also have "\<dots> = (500 \<le> n)" by (simp only: of_nat_le_iff)
    finally show ?thesis .
  qed
  have c: "((0::rat) < of_nat n / 10) = (1 \<le> n)" by auto
  show ?thesis by (simp only: percentFont_def option.case e a b c)
qed

lemma font_of_row:
  "coveragePercentFont (serviceRow t counts s) =
     percentFont (parseFloat (coveragePercent (getOrZero counts (serviceCodeOf s)) t))"
  by (simp add: serviceRow_def Let_def)

lemma map_of_const:
  "map_of (map (\<lambda>i. (f i, v)) is) k = (if k \<in> f ` set is then Some v else None)"
  by (induction "is") auto

lemma partialCoverage_lookup:
  "k \<in> set (map fst (partialCoverage m)) \<Longrightarrow> lookupOrEmpty (partialCoverage m) k = [''s3'']"
  by (auto simp: partialCoverage_def lookupOrEmpty_def orEmpty_def map_of_const)

lemma sum_list_const_one: "(\<And>k. k \<in> set ks \<Longrightarrow> g k = (1::nat)) \<Longrightarrow> sum_list (map g ks) = length ks"
  by (induction ks) auto

lemma partialCoverage_count: "getOrZero (serviceRegionCounts (partialCoverage m)) ''s3'' = m"
proof -
  have "sum_list (map (\<lambda>k. count_list (lookupOrEmpty (partialCoverage m) k) ''s3'') (map fst (partialCoverage m)))
      = length (map fst (partialCoverage m))"
    by (rule sum_list_const_one) (simp add: partialCoverage_lookup)
  also have "\<dots> = m" by (simp add: partialCoverage_def)
  finally show ?thesis by (simp only: getOrZero_serviceRegionCounts)
qed

lemma length_manyRegions: "length (manyRegions n) = n"
  by (simp add: manyRegions_def)

lemma wide_sheet:
  "createServicesSheet codeUnitKey wideModel =
     [\<lparr>serviceCode = ''s3'', serviceName = ''s3'', availableRegions = 377,
        coveragePercentCell = ''75.0%'', coveragePercentFont = lightGreen\<rparr>]"
proof -
  have c: "getOrZero (serviceRegionCounts (partialCoverage 377)) ''s3'' = 377"
    by (rule partialCoverage_count)
  have code: "serviceCodeOf (sampleService ''s3'' ''s3'') = ''s3''"
    and name: "serviceNameOf (sampleService ''s3'' ''s3'') = ''s3''"
    by (simp_all add: serviceCodeOf_def serviceNameOf_def sampleService_def orElse_def)
  have cp: "coveragePercent 377 503 = ''75.0''"
    by (simp add: coveragePercent_pos showNat.simps digitChar_def)
  have pf: "parseFloat ''75.0'' = Some 75"
    by (simp add: parseFloat_def isDigit_def natOfDigits_def digitVal_def)
  have row: "serviceRow 503 (serviceRegionCounts (partialCoverage 377)) (sampleService ''s3'' ''s3'')
      = \<lparr>serviceCode = ''s3'', serviceName = ''s3'', availableRegions = 377,
        coveragePercentCell = ''75.0%'', coveragePercentFont = lightGreen\<rparr>"
    by (simp add: serviceRow_def Let_def code name c cp pf percentFont_def)
  show ?thesis
    by (simp add: createServicesSheet_def wideModel_def orEmpty_def sortedServicesBy_def
        length_manyRegions row)
qed

lemma inj_showNat: "inj showNat"
  by (rule inj_on_inverseI [where g = natOfDigits]) (rule natOfDigits_showNat)

lemma inj_regionCodeNo: "inj regionCodeNo"
  by (rule injI) (simp add: regionCodeNo_def inj_showNat [THEN injD])

text \<open>
  Claim C2, as it holds on the code. The colour is chosen from the percentage rounded
  to one decimal, the number the cell shows, so on the exact fraction the bands begin
  0.05 lower. For every row of the Services sheet whose region count does not exceed
  the number of regions: 99.95% and more gets the green bold style; from 74.95% up to
  there the light green style; from 49.95% the orange style; from 0.05% the red style;
  below 0.05%, and whenever the model has no region, the gray italic style. A service
  that is in no region gets the gray italic style.
\<close>

theorem coverage_style_bands:
  assumes row: "row \<in> set (createServicesSheet localeKey sd)"
    and le: "availableRegions row \<le> length (orEmpty (sd_regions sd))"
  shows "coveragePercentFont row =
     (if orEmpty (sd_regions sd) = [] then grayItalic
      else if 9995 / 100 \<le> (100 * of_nat (availableRegions row) / of_nat (length (orEmpty (sd_regions sd))) :: rat)
        then greenBold
      else if 7495 / 100 \<le> (100 * of_nat (availableRegions row) / of_nat (length (orEmpty (sd_regions sd))) :: rat)
        then lightGreen
      else if 4995 / 100 \<le> (100 * of_nat (availableRegions row) / of_nat (length (orEmpty (sd_regions sd))) :: rat)
        then orange
      else if 5 / 100 \<le> (100 * of_nat (availableRegions row) / of_nat (length (orEmpty (sd_regions sd))) :: rat)
        then red
      else grayItalic) \<and>
     (availableRegions row = 0 \<longrightarrow> coveragePercentFont row = grayItalic)"
proof -
  from services_row_form [OF row] obtain s where
    r: "row = serviceRow (length (orEmpty (sd_regions sd)))
              (serviceRegionCounts (orEmpty (sd_servicesByRegion sd))) s"
    by blast
  let ?t = "length (orEmpty (sd_regions sd))"
  let ?c = "getOrZero (serviceRegionCounts (orEmpty (sd_servicesByRegion sd))) (serviceCodeOf s)"
  let ?x = "100 * of_nat ?c / of_nat ?t :: rat"
  let ?n = "(2000 * ?c + ?t) div (2 * ?t)"
  have av: "availableRegions row = ?c" by (simp add: r serviceRow_def Let_def)
  have f: "coveragePercentFont row = percentFont (parseFloat (coveragePercent ?c ?t))"
    by (simp only: r font_of_row)
  show ?thesis
  proof (cases "orEmpty (sd_regions sd) = []")
    case True
    then have "coveragePercentFont row = grayItalic"
      by (simp add: f coveragePercent_zero parseFloat_zero percentFont_def)
    moreover from True le have "availableRegions row = 0" by simp
    ultimately show ?thesis using True by simp
  next
    case False
    then have pos: "0 < ?t" by simp
    have fn: "coveragePercentFont row =
        (if ?n = 1000 then greenBold else if 750 \<le> ?n then lightGreen
         else if 500 \<le> ?n then orange else if 1 \<le> ?n then red else grayItalic)"
      by (simp only: f parseFloat_coveragePercent_pos [OF pos] percentFont_tenths)
    have "?c \<le> ?t" using le av by simp
    then have "?n \<le> 1000" by (rule tenths_le [OF pos])
    then have k1000: "(?n = 1000) = (1000 \<le> ?n)" by auto
    have t1000: "(1000 \<le> ?n) = (9995 / 100 \<le> ?x)"
      using tenths_ge [OF pos, of 1000 ?c] by simp
    have t750: "(750 \<le> ?n) = (7495 / 100 \<le> ?x)"
      using tenths_ge [OF pos, of 750 ?c] by simp
    have t500: "(500 \<le> ?n) = (4995 / 100 \<le> ?x)"
      using tenths_ge [OF pos, of 500 ?c] by simp
    have t1: "(1 \<le> ?n) = (5 / 100 \<le> ?x)"
      using tenths_ge [OF pos, of 1 ?c] by simp
    have bands: "coveragePercentFont row =
        (if 9995 / 100 \<le> ?x then greenBold else if 7495 / 100 \<le> ?x then lightGreen
         else if 4995 / 100 \<le> ?x then orange else if 5 / 100 \<le> ?x then red else grayItalic)"
      by (simp only: fn k1000 t1000 t750 t500 t1)
    have zero: "?c = 0 \<Longrightarrow> coveragePercentFont row = grayItalic"
      using pos by (simp add: fn)
    show ?thesis unfolding av using False bands zero by (simp only: if_False) auto
  qed
qed

theorem coverage_style_bands_witness:
  "\<lparr>serviceCode = ''ec2'', serviceName = ''ec2'', availableRegions = 1,
     coveragePercentCell = ''50.0%'', coveragePercentFont = orange\<rparr>
     \<in> set (createServicesSheet codeUnitKey scenario) \<and>
   (1::nat) \<le> length (orEmpty (sd_regions scenario)) \<and>
   (4995 / 100 :: rat) \<le> 100 * 1 / 2 \<and> \<not> (7495 / 100 :: rat) \<le> 100 * 1 / 2 \<and>
   coveragePercentFont \<lparr>serviceCode = ''ec2'', serviceName = ''ec2'', availableRegions = 1,
     coveragePercentCell = ''50.0%'', coveragePercentFont = orange\<rparr> = orange"
proof -
  let ?row = "\<lparr>serviceCode = ''ec2'', serviceName = ''ec2'', availableRegions = 1,
     coveragePercentCell = ''50.0%'', coveragePercentFont = orange\<rparr>"
  have m: "?row \<in> set (createServicesSheet codeUnitKey scenario)"
    by (simp add: scenario_sheet)
  have len: "length (orEmpty (sd_regions scenario)) = 2"
    by (simp add: scenario_def scenarioRegions_def orEmpty_def)
  have le: "availableRegions ?row \<le> length (orEmpty (sd_regions scenario))"
    by (simp add: len)
  from coverage_style_bands [OF m le] m len show ?thesis by simp
qed


text \<open>
  The bands of the claim as stated, on the exact fraction, fail on a model of 503
  regions with distinct codes of which 377 offer the service: the fraction is 74.95...%,
  inside [50,75), the cell shows 75.0% and the style is the light green one, not the
  orange one.
\<close>

theorem coverage_style_counterexample:
  "createServicesSheet codeUnitKey wideModel =
     [\<lparr>serviceCode = ''s3'', serviceName = ''s3'', availableRegions = 377,
        coveragePercentCell = ''75.0%'', coveragePercentFont = lightGreen\<rparr>] \<and>
   length (orEmpty (sd_regions wideModel)) = 503 \<and>
   (50::rat) \<le> 100 * 377 / 503 \<and> 100 * 377 / 503 < (75::rat) \<and>
   lightGreen \<noteq> orange \<and>
   distinct (map fst (partialCoverage 377)) \<and>
   list_all (\<lambda>(k, xs). distinct xs) (partialCoverage 377) \<and>
   fst ` set (partialCoverage 377) \<subseteq> regionCodeOf ` set (manyRegions 503)"
proof -
  have "length (orEmpty (sd_regions wideModel)) = 503"
    by (simp add: wideModel_def orEmpty_def length_manyRegions)
  moreover have "lightGreen \<noteq> orange" by (simp add: lightGreen_def orange_def)
  moreover have "distinct (map fst (partialCoverage 377))"
    by (simp add: partialCoverage_def comp_def distinct_map inj_regionCodeNo [THEN inj_on_subset])
  moreover have "list_all (\<lambda>(k, xs). distinct xs) (partialCoverage 377)"
    by (simp add: partialCoverage_def list_all_iff)
  moreover have "fst ` set (partialCoverage 377) \<subseteq> regionCodeOf ` set (manyRegions 503)"
  proof
    fix k assume "k \<in> fst ` set (partialCoverage 377)"
    then obtain i where i: "i < 377" and k: "k = regionCodeNo i"
      by (auto simp: partialCoverage_def)
    have "regionCodeOf (sampleRegion (regionCodeNo i) (regionCodeNo i) 3) = regionCodeNo i"
      by (simp add: regionCodeOf_def sampleRegion_def orElse_def regionCodeNo_def)
    moreover have "sampleRegion (regionCodeNo i) (regionCodeNo i) 3 \<in> set (manyRegions 503)"
      using i by (simp add: manyRegions_def)
    ultimately show "k \<in> regionCodeOf ` set (manyRegions 503)"
      using k by (metis imageI)
  qed
  ultimately show ?thesis using wide_sheet by simp
qed

section \<open>Row order of the Services and Service Coverage sheets\<close>

lemma canonical_sort_name: "canonicalService s \<Longrightarrow> servicesSortName s = serviceNameOf s"
  by (simp add: canonicalService_def servicesSortName_def serviceNameOf_def orElse_def)

lemma canonical_enrich: "canonicalService (enrich m c)"
  by (simp add: canonicalService_def enrich_def)

lemma sort_key_cong_set:
  "(\<And>x. x \<in> set xs \<Longrightarrow> f x = g x) \<Longrightarrow> sort_key f xs = sort_key g xs"
proof (induction xs)
  case Nil
  then show ?case by simp
next
  case (Cons x xs)
  have s: "sort_key f xs = sort_key g xs" using Cons by simp
  have i: "insort_key f x ys = insort_key g x ys" if "set ys \<subseteq> set (x # xs)" for ys
    using that Cons.prems by (induction ys) auto
  have "set (sort_key g xs) \<subseteq> set (x # xs)" by auto
  then have "insort_key f x (sort_key g xs) = insort_key g x (sort_key g xs)" by (rule i)
  with s show ?case by simp
qed

lemma canonical_sorted_same:
  assumes "list_all canonicalService services"
  shows "sortedServicesBy localeKey servicesSortName services
           = sortedServicesBy localeKey serviceNameOf services"
  unfolding sortedServicesBy_def
  by (rule sort_key_cong_set) (use assms in \<open>simp add: list_all_iff canonical_sort_name\<close>)

lemma serviceName_serviceRow: "serviceName (serviceRow t counts s) = serviceNameOf s"
  by (simp add: serviceRow_def Let_def)

lemma tie_services_sheet:
  "map serviceCode (createServicesSheet codeUnitKey tieModel) = [''ec2-b'', ''ec2-a'', ''s3''] \<and>
   map serviceName (createServicesSheet codeUnitKey tieModel) = [''EC2'', ''ec2'', ''S3'']"
  by (simp add: eval_defs tieModel_def tieServices_def)

lemma tie_services_canonical: "list_all canonicalService tieServices"
  by (simp add: tieServices_def canonicalService_def sampleService_def)

text \<open>
  Claim C3. For every list of service records as the handler builds them, the rows of
  the Services sheet are in ascending order of the lower-cased display name under the
  collation; they are the records of the input, each once; and the records with the
  same collation key keep the order they have in the input. The sheet is a function of
  the model, so the same input gives the same row order.
\<close>

theorem services_sheet_order:
  fixes localeKey :: "string \<Rightarrow> 'k::linorder"
  assumes sv: "sd_services sd = Some services"
    and can: "list_all canonicalService services"
  shows "sorted (map (\<lambda>row. localeKey (toLowerCase (serviceName row))) (createServicesSheet localeKey sd)) \<and>
         (\<exists>sortedServices.
            map serviceName (createServicesSheet localeKey sd) = map serviceNameOf sortedServices \<and>
            map serviceCode (createServicesSheet localeKey sd) = map serviceCodeOf sortedServices \<and>
            mset sortedServices = mset services \<and>
            (\<forall>k. filter (\<lambda>s. localeKey (toLowerCase (serviceNameOf s)) = k) sortedServices
                 = filter (\<lambda>s. localeKey (toLowerCase (serviceNameOf s)) = k) services))"
proof -
  let ?key = "\<lambda>s. localeKey (toLowerCase (serviceNameOf s))"
  let ?ss = "sort_key ?key services"
  let ?t = "length (orEmpty (sd_regions sd))"
  let ?counts = "serviceRegionCounts (orEmpty (sd_servicesByRegion sd))"
  have sheet: "createServicesSheet localeKey sd = map (serviceRow ?t ?counts) ?ss"
    using canonical_sorted_same [OF can, of localeKey]
    by (simp add: createServicesSheet_def Let_def sv orEmpty_def sortedServicesBy_def)
  have names: "map serviceName (createServicesSheet localeKey sd) = map serviceNameOf ?ss"
    by (simp add: sheet serviceName_serviceRow comp_def)
  have codes: "map serviceCode (createServicesSheet localeKey sd) = map serviceCodeOf ?ss"
    by (simp add: sheet serviceRow_def Let_def comp_def)
  have "map (\<lambda>row. localeKey (toLowerCase (serviceName row))) (createServicesSheet localeKey sd)
      = map ?key ?ss"
    by (simp add: sheet serviceName_serviceRow comp_def)
  then have srt: "sorted (map (\<lambda>row. localeKey (toLowerCase (serviceName row))) (createServicesSheet localeKey sd))"
    by (simp only: sorted_sort_key)
  have perm: "mset ?ss = mset services" by simp
  have stable: "\<forall>k. filter (\<lambda>s. ?key s = k) ?ss = filter (\<lambda>s. ?key s = k) services"
    by (simp add: sort_key_stable)
  from srt names codes perm stable show ?thesis by blast
qed

theorem services_sheet_order_witness:
  "sd_services tieModel = Some tieServices \<and> list_all canonicalService tieServices \<and>
   map serviceCode (createServicesSheet codeUnitKey tieModel) = [''ec2-b'', ''ec2-a'', ''s3''] \<and>
   sorted (map (\<lambda>row. codeUnitKey (toLowerCase (serviceName row)))
             (createServicesSheet codeUnitKey tieModel))"
proof -
  have sv: "sd_services tieModel = Some tieServices" by (simp add: tieModel_def)
  from services_sheet_order [OF sv tie_services_canonical, of codeUnitKey]
  have "sorted (map (\<lambda>row. codeUnitKey (toLowerCase (serviceName row)))
                  (createServicesSheet codeUnitKey tieModel))"
    by blast
  with sv tie_services_canonical tie_services_sheet show ?thesis by (intro conjI) simp_all
qed




section \<open>Properties of the validation and normalization\<close>

lemma normalizeEntry_error: "normalizeEntry acc e = Inl err \<Longrightarrow> err = TypeError"
proof -
  assume a: "normalizeEntry acc e = Inl err"
  obtain k d where e: "e = (k, d)" by (cases e)
  show ?thesis
  proof (cases d)
    case (RegionArray xs)
    with a e show ?thesis by simp
  next
    case (RegionObject props)
    with a e show ?thesis
      by (simp split: option.splits region_data.splits)
  next
    case (RegionString s)
    with a e show ?thesis by simp
  next
    case RegionNull
    with a e show ?thesis by simp
  qed
qed

lemma normalizeCoverageFrom_error:
  "normalizeCoverageFrom acc raw = Inl err \<Longrightarrow> err = TypeError"
proof (induction raw arbitrary: acc)
  case Nil
  then show ?case by simp
next
  case (Cons e es)
  show ?case
  proof (cases "normalizeEntry acc e")
    case (Inl x)
    with Cons.prems have "err = x" by simp
    with normalizeEntry_error [OF Inl] show ?thesis by simp
  next
    case (Inr acc')
    with Cons.prems have "normalizeCoverageFrom acc' es = Inl err" by simp
    then show ?thesis by (rule Cons.IH)
  qed
qed

lemma normalizeCoverageFrom_append:
  "normalizeCoverageFrom acc (pre @ post) =
     (case normalizeCoverageFrom acc pre of Inl err \<Rightarrow> Inl err
      | Inr acc' \<Rightarrow> normalizeCoverageFrom acc' post)"
  by (induction pre arbitrary: acc) (auto split: sum.splits)

lemma normalizeEntry_givenAs:
  "givenAs d ys \<Longrightarrow> normalizeEntry acc (r, d) = Inr (assignProp acc r ys)"
  by (cases d) (simp_all add: givenAs_def)

lemma setProp_fresh: "k \<notin> fst ` set obj \<Longrightarrow> setProp obj k v = obj @ [(k, v)]"
  by (induction obj) auto

lemma normalizeCoverageFrom_given:
  assumes "list_all2 (\<lambda>(k, d) (k', ys). k = k' \<and> givenAs d ys) raw m"
    and "distinct (map fst m)"
    and "''__proto__'' \<notin> set (map fst m)"
    and "fst ` set acc \<inter> set (map fst m) = {}"
  shows "normalizeCoverageFrom acc raw = Inr (acc @ m)"
  using assms
proof (induction raw m arbitrary: acc rule: list_all2_induct)
  case Nil
  then show ?case by simp
next
  case (Cons e raw p m)
  obtain k d where e: "e = (k, d)" by (cases e)
  obtain k' ys where p: "p = (k', ys)" by (cases p)
  from Cons.hyps(1) e p have kk: "k' = k" and g: "givenAs d ys" by simp_all
  have fresh: "k \<notin> fst ` set acc" using Cons.prems(3) p kk by auto
  have np: "k \<noteq> ''__proto__''" using Cons.prems(2) p kk by auto
  have step: "normalizeEntry acc e = Inr (acc @ [(k, ys)])"
    using normalizeEntry_givenAs [OF g, of acc k] fresh np
    by (simp add: e assignProp_def setProp_fresh)
  have d1: "distinct (map fst m)" and d2: "''__proto__'' \<notin> set (map fst m)"
    using Cons.prems(1,2) by simp_all
  have d3: "fst ` set (acc @ [(k, ys)]) \<inter> set (map fst m) = {}"
    using Cons.prems(1,3) p kk by auto
  have "normalizeCoverageFrom (acc @ [(k, ys)]) raw = Inr ((acc @ [(k, ys)]) @ m)"
    by (rule Cons.IH [OF d1 d2 d3])
  then show ?case by (simp add: step p kk)
qed

lemma map_of_other_key:
  "r \<noteq> k \<Longrightarrow> map_of (pre @ (r, d) # post) k = map_of (pre @ (r, d') # post) k"
  by (simp add: map_of_append map_add_def split: option.splits)

lemma normalizeCoverageFrom_shapes:
  assumes "givenAs d ys"
  shows "normalizeCoverageFrom acc (pre @ (r, d) # post)
           = normalizeCoverageFrom acc (pre @ (r, RegionArray ys) # post)"
  using normalizeEntry_givenAs [OF assms]
  by (simp add: normalizeCoverageFrom_append split: sum.splits)

lemma servicesByRegionRaw_shapes:
  assumes "givenAs d ys" "r \<noteq> ''byRegion''"
  shows "normalizeCoverage (servicesByRegionRaw
             (src\<lparr>raw_servicesByRegion := Some (RegionObject (pre @ (r, d) # post))\<rparr>))
       = normalizeCoverage (servicesByRegionRaw
             (src\<lparr>raw_servicesByRegion := Some (RegionObject (pre @ (r, RegionArray ys) # post))\<rparr>))"
proof -
  define A where "A = pre @ (r, d) # post"
  define B where "B = pre @ (r, RegionArray ys) # post"
  have m: "map_of A ''byRegion'' = map_of B ''byRegion''"
    unfolding A_def B_def by (rule map_of_other_key [OF assms(2)])
  have n: "normalizeCoverageFrom [] A = normalizeCoverageFrom [] B"
    unfolding A_def B_def by (rule normalizeCoverageFrom_shapes [OF assms(1)])
  have "normalizeCoverage (servicesByRegionRaw (src\<lparr>raw_servicesByRegion := Some (RegionObject A)\<rparr>))
      = normalizeCoverage (servicesByRegionRaw (src\<lparr>raw_servicesByRegion := Some (RegionObject B)\<rparr>))"
    by (cases "map_of B ''byRegion''") (simp_all add: servicesByRegionRaw_def normalizeCoverage_def m n)
  then show ?thesis by (simp only: A_def B_def)
qed

lemma normalizeData_cong_coverage:
  assumes "raw_metadata a = raw_metadata b" "raw_regions a = raw_regions b"
    "raw_services a = raw_services b"
    "normalizeCoverage (servicesByRegionRaw a) = normalizeCoverage (servicesByRegionRaw b)"
  shows "normalizeData a names = normalizeData b names"
  using assms
  by (cases "raw_metadata b"; cases "raw_regions b"; cases "raw_services b")
    (simp_all add: normalizeData_def)

lemma normalizeData_coverage:
  assumes "raw_metadata src \<noteq> None" "raw_regions src \<noteq> None" "raw_services src \<noteq> None"
    and "normalizeCoverage (servicesByRegionRaw src) = Inr sbr"
  shows "\<exists>sd. normalizeData src names = Inr sd \<and> sd_servicesByRegion sd = Some sbr"
  using assms by (auto simp: normalizeData_def Let_def)

text \<open>
  Claim C5, as it holds on the code. An entry of the coverage mapping that wraps the
  array of service codes in an object under \<open>services\<close> is normalized as the plain array
  is: one step of the loop, and the loop in any context of other entries, give the same
  result for both shapes; so does the normalization of a whole source document whose
  mapping is given flat, for every region code but \<open>byRegion\<close>. And the result is the
  mapping from region code to array: when the document has its metadata, regions and
  services, the mapping is given flat without the key \<open>byRegion\<close> or nested under
  \<open>byRegion\<close>, its keys are distinct and none is \<open>__proto__\<close>, and each entry stands for its
  array in either shape, the normalization succeeds and its coverage mapping holds, for
  each of these regions and no other, exactly the array.
\<close>

theorem coverage_shapes_normalize_alike:
  "(givenAs d ys \<longrightarrow>
      normalizeEntry acc (r, d) = normalizeEntry acc (r, RegionArray ys) \<and>
      normalizeCoverageFrom acc (pre @ (r, d) # post)
        = normalizeCoverageFrom acc (pre @ (r, RegionArray ys) # post)) \<and>
   (givenAs d ys \<and> r \<noteq> ''byRegion'' \<longrightarrow>
      normalizeData (src\<lparr>raw_servicesByRegion := Some (RegionObject (pre @ (r, d) # post))\<rparr>) names
        = normalizeData
            (src\<lparr>raw_servicesByRegion := Some (RegionObject (pre @ (r, RegionArray ys) # post))\<rparr>)
            names) \<and>
   (raw_metadata src \<noteq> None \<and> raw_regions src \<noteq> None \<and> raw_services src \<noteq> None \<and>
    list_all2 (\<lambda>(k, e) (k', xs). k = k' \<and> givenAs e xs) raw m \<and>
    distinct (map fst m) \<and> ''__proto__'' \<notin> set (map fst m) \<and>
    (raw_servicesByRegion src = Some (RegionObject raw) \<and> ''byRegion'' \<notin> set (map fst m) \<or>
     (\<exists>top. raw_servicesByRegion src = Some (RegionObject top) \<and>
            map_of top ''byRegion'' = Some (RegionObject raw))) \<longrightarrow>
      (\<exists>sd sbr. normalizeData src names = Inr sd \<and> sd_servicesByRegion sd = Some sbr \<and>
                distinct (map fst sbr) \<and> map_of sbr = map_of m))"
proof (intro conjI impI)
  assume g: "givenAs d ys"
  show "normalizeEntry acc (r, d) = normalizeEntry acc (r, RegionArray ys)"
    by (simp add: normalizeEntry_givenAs [OF g])
  show "normalizeCoverageFrom acc (pre @ (r, d) # post)
        = normalizeCoverageFrom acc (pre @ (r, RegionArray ys) # post)"
    by (rule normalizeCoverageFrom_shapes [OF g])
next
  assume a: "givenAs d ys \<and> r \<noteq> ''byRegion''"
  show "normalizeData (src\<lparr>raw_servicesByRegion := Some (RegionObject (pre @ (r, d) # post))\<rparr>) names
        = normalizeData
            (src\<lparr>raw_servicesByRegion := Some (RegionObject (pre @ (r, RegionArray ys) # post))\<rparr>)
            names"
    by (rule normalizeData_cong_coverage) (use a in \<open>simp_all add: servicesByRegionRaw_shapes\<close>)
next
  assume h: "raw_metadata src \<noteq> None \<and> raw_regions src \<noteq> None \<and> raw_services src \<noteq> None \<and>
    list_all2 (\<lambda>(k, e) (k', xs). k = k' \<and> givenAs e xs) raw m \<and>
    distinct (map fst m) \<and> ''__proto__'' \<notin> set (map fst m) \<and>
    (raw_servicesByRegion src = Some (RegionObject raw) \<and> ''byRegion'' \<notin> set (map fst m) \<or>
     (\<exists>top. raw_servicesByRegion src = Some (RegionObject top) \<and>
            map_of top ''byRegion'' = Some (RegionObject raw)))"
  then have la: "list_all2 (\<lambda>(k, e) (k', xs). k = k' \<and> givenAs e xs) raw m"
    and dm: "distinct (map fst m)" and np: "''__proto__'' \<notin> set (map fst m)"
    by simp_all
  have n: "normalizeCoverageFrom [] raw = Inr m"
    using normalizeCoverageFrom_given [OF la dm np, of "[]"] by simp
  have keys: "map fst raw = map fst m"
    using la by (induction raw m rule: list_all2_induct) auto
  have r: "servicesByRegionRaw src = raw"
  proof -
    from h consider
      (flat) "raw_servicesByRegion src = Some (RegionObject raw)" "''byRegion'' \<notin> set (map fst m)"
      | (nested) top where "raw_servicesByRegion src = Some (RegionObject top)"
          "map_of top ''byRegion'' = Some (RegionObject raw)"
      by blast
    then show ?thesis
    proof cases
      case flat
      from flat(2) keys have "''byRegion'' \<notin> fst ` set raw" by (metis set_map)
      then have "map_of raw ''byRegion'' = None" by (simp add: map_of_eq_None_iff)
      with flat(1) show ?thesis by (simp add: servicesByRegionRaw_def)
    next
      case nested
      then show ?thesis by (simp add: servicesByRegionRaw_def)
    qed
  qed
  from n r have "normalizeCoverage (servicesByRegionRaw src) = Inr m"
    by (simp add: normalizeCoverage_def)
  with h normalizeData_coverage [of src m names]
  obtain sd where "normalizeData src names = Inr sd" "sd_servicesByRegion sd = Some m" by blast
  with dm show "\<exists>sd sbr. normalizeData src names = Inr sd \<and> sd_servicesByRegion sd = Some sbr \<and>
                distinct (map fst sbr) \<and> map_of sbr = map_of m"
    by blast
qed

lemma twoShapes_given:
  "list_all2 (\<lambda>(k, e) (k', xs). k = k' \<and> givenAs e xs) twoShapes scenarioCoverage"
  by (simp add: twoShapes_def scenarioCoverage_def givenAs_def)

lemma flat_two_shapes:
  "normalizeData (flatSource twoShapes) [] =
     Inr \<lparr>sd_metadata = Some sampleMetadata, sd_regions = Some scenarioRegions,
          sd_services = Some [sampleService ''s3'' ''s3'', sampleService ''ec2'' ''ec2'',
                              sampleService ''lambda'' ''lambda''],
          sd_servicesByRegion = Some scenarioCoverage\<rparr>"
  by (simp add: flatSource_def twoShapes_def normalizeData_def unwrap_def servicesByRegionRaw_def
      normalizeCoverage_def assignProp_def serviceMapOf_def enrich_def orElse_def sampleService_def
      scenarioCoverage_def)

theorem coverage_shapes_normalize_alike_witness:
  "givenAs (RegionObject [(''services'', RegionArray [''s3'', ''ec2'', ''lambda''])])
     [''s3'', ''ec2'', ''lambda''] \<and>
   ''us-east-1'' \<noteq> ''byRegion'' \<and>
   normalizeData (flatSource twoShapes) []
     = normalizeData (flatSource [(''us-east-1'', RegionArray [''s3'', ''ec2'', ''lambda'']),
                                  (''eu-west-1'', RegionArray [''s3''])]) [] \<and>
   list_all2 (\<lambda>(k, e) (k', xs). k = k' \<and> givenAs e xs) twoShapes scenarioCoverage \<and>
   distinct (map fst scenarioCoverage) \<and> ''__proto__'' \<notin> set (map fst scenarioCoverage) \<and>
   ''byRegion'' \<notin> set (map fst scenarioCoverage) \<and>
   raw_servicesByRegion (flatSource twoShapes) = Some (RegionObject twoShapes) \<and>
   (\<exists>sd sbr. normalizeData (flatSource twoShapes) [] = Inr sd \<and> sd_servicesByRegion sd = Some sbr \<and>
             distinct (map fst sbr) \<and> map_of sbr = map_of scenarioCoverage) \<and>
   normalizeData (flatSource twoShapes) [] =
     Inr \<lparr>sd_metadata = Some sampleMetadata, sd_regions = Some scenarioRegions,
          sd_services = Some [sampleService ''s3'' ''s3'', sampleService ''ec2'' ''ec2'',
                              sampleService ''lambda'' ''lambda''],
          sd_servicesByRegion = Some scenarioCoverage\<rparr>"
proof -
  let ?d = "RegionObject [(''services'', RegionArray [''s3'', ''ec2'', ''lambda''])]"
  let ?ys = "[''s3'', ''ec2'', ''lambda'']"
  let ?post = "[(''eu-west-1'', RegionArray [''s3''])]"
  have g: "givenAs ?d ?ys" by (simp add: givenAs_def)
  have nb: "''us-east-1'' \<noteq> ''byRegion''" by simp
  have p: "raw_metadata (flatSource twoShapes) \<noteq> None \<and> raw_regions (flatSource twoShapes) \<noteq> None \<and>
      raw_services (flatSource twoShapes) \<noteq> None"
    by (simp add: flatSource_def)
  have d: "distinct (map fst scenarioCoverage)" "''__proto__'' \<notin> set (map fst scenarioCoverage)"
    "''byRegion'' \<notin> set (map fst scenarioCoverage)"
    by (simp_all add: scenarioCoverage_def)
  have f: "raw_servicesByRegion (flatSource twoShapes) = Some (RegionObject twoShapes)"
    by (simp add: flatSource_def)
  note t = coverage_shapes_normalize_alike
    [of ?d ?ys "[]" "''us-east-1''" "[]" ?post "flatSource twoShapes" "[]" twoShapes scenarioCoverage]
  from t g nb
  have "normalizeData
          ((flatSource twoShapes)\<lparr>raw_servicesByRegion := Some (RegionObject ([] @ (''us-east-1'', ?d) # ?post))\<rparr>) []
      = normalizeData
          ((flatSource twoShapes)\<lparr>raw_servicesByRegion :=
             Some (RegionObject ([] @ (''us-east-1'', RegionArray ?ys) # ?post))\<rparr>) []"
    by blast
  then have alike: "normalizeData (flatSource twoShapes) []
     = normalizeData (flatSource [(''us-east-1'', RegionArray [''s3'', ''ec2'', ''lambda'']),
                                  (''eu-west-1'', RegionArray [''s3''])]) []"
    by (simp add: flatSource_def twoShapes_def)
  from t p twoShapes_given d f
  have "\<exists>sd sbr. normalizeData (flatSource twoShapes) [] = Inr sd \<and> sd_servicesByRegion sd = Some sbr \<and>
             distinct (map fst sbr) \<and> map_of sbr = map_of scenarioCoverage"
    by blast
  with g nb alike twoShapes_given d f flat_two_shapes show ?thesis by (intro conjI)
qed

text \<open>
  The claim as stated fails for the region code \<open>byRegion\<close> in a mapping that is given
  flat: the handler takes a truthy \<open>byRegion\<close> property as the whole mapping, so the plain
  array normalizes to the empty mapping and the wrapping object to a mapping with the one
  key \<open>services\<close>; the two results differ and neither holds the array for the region. For
  the key \<open>__proto__\<close> the assignment makes no property, and the mapping stays empty.
\<close>

theorem coverage_shapes_counterexample:
  "normalizeData byRegionAsArray [] =
     Inr \<lparr>sd_metadata = Some sampleMetadata, sd_regions = Some scenarioRegions,
          sd_services = Some [sampleService ''s3'' ''s3'', sampleService ''ec2'' ''ec2'',
                              sampleService ''lambda'' ''lambda''],
          sd_servicesByRegion = Some []\<rparr> \<and>
   normalizeData byRegionAsObject [] =
     Inr \<lparr>sd_metadata = Some sampleMetadata, sd_regions = Some scenarioRegions,
          sd_services = Some [sampleService ''s3'' ''s3'', sampleService ''ec2'' ''ec2'',
                              sampleService ''lambda'' ''lambda''],
          sd_servicesByRegion = Some [(''services'', [''ec2'', ''s3''])]\<rparr> \<and>
   normalizeData byRegionAsArray [] \<noteq> normalizeData byRegionAsObject [] \<and>
   normalizeCoverage [(''__proto__'', RegionArray [''ec2'', ''s3''])] = Inr []"
proof -
  have a: "normalizeData byRegionAsArray [] =
     Inr \<lparr>sd_metadata = Some sampleMetadata, sd_regions = Some scenarioRegions,
          sd_services = Some [sampleService ''s3'' ''s3'', sampleService ''ec2'' ''ec2'',
                              sampleService ''lambda'' ''lambda''],
          sd_servicesByRegion = Some []\<rparr>"
    by (simp add: byRegionAsArray_def flatSource_def normalizeData_def unwrap_def
        servicesByRegionRaw_def normalizeCoverage_def assignProp_def serviceMapOf_def enrich_def
        orElse_def sampleService_def)
  have b: "normalizeData byRegionAsObject [] =
     Inr \<lparr>sd_metadata = Some sampleMetadata, sd_regions = Some scenarioRegions,
          sd_services = Some [sampleService ''s3'' ''s3'', sampleService ''ec2'' ''ec2'',
                              sampleService ''lambda'' ''lambda''],
          sd_servicesByRegion = Some [(''services'', [''ec2'', ''s3''])]\<rparr>"
    by (simp add: byRegionAsObject_def flatSource_def normalizeData_def unwrap_def
        servicesByRegionRaw_def normalizeCoverage_def assignProp_def serviceMapOf_def enrich_def
        orElse_def sampleService_def)
  have c: "normalizeCoverage [(''__proto__'', RegionArray [''ec2'', ''s3''])] = Inr []"
    by (simp add: normalizeCoverage_def assignProp_def)
  from a b have "normalizeData byRegionAsArray [] \<noteq> normalizeData byRegionAsObject []" by simp
  with a b c show ?thesis by (intro conjI)
qed

lemma normalize_invalid_iff:
  "(normalizeData src names = Inl InvalidDataStructure)
     = (raw_metadata src = None \<or> raw_regions src = None \<or> raw_services src = None)"
proof -
  have ne: "normalizeCoverageFrom acc raw \<noteq> Inl InvalidDataStructure" for acc raw
    using normalizeCoverageFrom_error [of acc raw InvalidDataStructure] by auto
  show ?thesis
    using ne [of "[]" "servicesByRegionRaw src"]
    by (auto simp: normalizeData_def normalizeCoverage_def Let_def split: option.splits sum.splits)
qed

lemma normalize_without_coverage:
  assumes "raw_metadata src = Some md" "raw_regions src = Some rs" "raw_services src = Some ss"
    and "raw_servicesByRegion src = None"
  shows "normalizeData src names =
           Inr \<lparr>sd_metadata = Some md, sd_regions = Some (unwrap rs),
                sd_services = Some (map (enrich (serviceMapOf names)) (unwrap ss)),
                sd_servicesByRegion = Some []\<rparr>"
  using assms by (simp add: normalizeData_def servicesByRegionRaw_def normalizeCoverage_def)

lemma coverage_placeholder_empty:
  "sd_servicesByRegion sd = Some [] \<Longrightarrow>
     createServiceCoverageSheet localeKey sd = Placeholder notAvailablePlaceholder"
  by (simp add: createServiceCoverageSheet_def)

lemma manageArchiveRetention_total:
  "listError store = None \<Longrightarrow> \<exists>res store'. manageArchiveRetention store t d = Inr (res, store')"
  by (simp add: manageArchiveRetention_def Let_def split: prod.splits)

lemma normalize_services_canonical:
  assumes "normalizeData src names = Inr sd"
  shows "\<exists>services. sd_services sd = Some services \<and> list_all canonicalService services"
  using assms
  by (auto simp: normalizeData_def Let_def list_all_iff canonical_enrich
      split: option.splits sum.splits)

text \<open>
  Claim C7, as it holds on the code. The validation aborts the run with the
  invalid-structure error exactly when the metadata, the regions container or the
  services container is absent from the source document. When the three are present
  and the coverage mapping is absent, the normalization succeeds and the Service
  Coverage sheet is the single centred placeholder; and if moreover the workbook, the
  uploads and the notification do not fail, the run ends with status 200 and a report
  whose Service Coverage sheet is that placeholder.
\<close>

theorem validation_fatal_cases:
  fixes localeKey :: "string \<Rightarrow> 'k::linorder"
  shows "(normalizeData src names = Inl InvalidDataStructure)
           = (raw_metadata src = None \<or> raw_regions src = None \<or> raw_services src = None) \<and>
         (raw_metadata src \<noteq> None \<and> raw_regions src \<noteq> None \<and> raw_services src \<noteq> None \<and>
          raw_servicesByRegion src = None \<longrightarrow>
            (\<exists>sd. normalizeData src names = Inr sd \<and>
                  createServiceCoverageSheet localeKey sd = Placeholder notAvailablePlaceholder) \<and>
            (readSourceData w = Inr src \<and> readServicesData w = names \<and> excelError w = None \<and>
             uploadError w = None \<and> notifyError w = None \<longrightarrow>
               statusCode (handler localeKey newDate w) = 200 \<and>
               (\<exists>rep. generated (handler localeKey newDate w) = Some rep \<and>
                      coverageSheet rep = Placeholder notAvailablePlaceholder)))"
proof (intro conjI impI)
  show "(normalizeData src names = Inl InvalidDataStructure)
           = (raw_metadata src = None \<or> raw_regions src = None \<or> raw_services src = None)"
    by (rule normalize_invalid_iff)
next
  assume p: "raw_metadata src \<noteq> None \<and> raw_regions src \<noteq> None \<and> raw_services src \<noteq> None \<and>
          raw_servicesByRegion src = None"
  then obtain md rs ss where f: "raw_metadata src = Some md" "raw_regions src = Some rs"
      "raw_services src = Some ss" "raw_servicesByRegion src = None"
    by auto
  let ?sd = "\<lparr>sd_metadata = Some md, sd_regions = Some (unwrap rs),
                sd_services = Some (map (enrich (serviceMapOf names)) (unwrap ss)),
                sd_servicesByRegion = Some []\<rparr>"
  have n: "normalizeData src names = Inr ?sd" by (rule normalize_without_coverage [OF f])
  have c: "createServiceCoverageSheet localeKey ?sd = Placeholder notAvailablePlaceholder"
    by (rule coverage_placeholder_empty) simp
  from n c show "\<exists>sd. normalizeData src names = Inr sd \<and>
                  createServiceCoverageSheet localeKey sd = Placeholder notAvailablePlaceholder"
    by blast
  assume q: "readSourceData w = Inr src \<and> readServicesData w = names \<and> excelError w = None \<and>
             uploadError w = None \<and> notifyError w = None"
  have h: "statusCode (handler localeKey newDate w) = 200 \<and>
        generated (handler localeKey newDate w) = Some (generateExcelReport localeKey newDate ?sd)"
    using q n by (simp add: handler_def Let_def split: prod.splits)
  then show "statusCode (handler localeKey newDate w) = 200" by simp
  have "coverageSheet (generateExcelReport localeKey newDate ?sd) = Placeholder notAvailablePlaceholder"
    by (simp add: generateExcelReport_def c)
  with h show "\<exists>rep. generated (handler localeKey newDate w) = Some rep \<and>
                      coverageSheet rep = Placeholder notAvailablePlaceholder"
    by blast
qed

theorem validation_fatal_cases_witness:
  "raw_metadata sourceWithoutCoverage \<noteq> None \<and> raw_regions sourceWithoutCoverage \<noteq> None \<and>
   raw_services sourceWithoutCoverage \<noteq> None \<and> raw_servicesByRegion sourceWithoutCoverage = None \<and>
   normalizeData sourceWithoutCoverage [] \<noteq> Inl InvalidDataStructure \<and>
   statusCode (handler codeUnitKey sampleNewDate (calmWorld sourceWithoutCoverage)) = 200 \<and>
   (\<exists>rep. generated (handler codeUnitKey sampleNewDate (calmWorld sourceWithoutCoverage)) = Some rep \<and>
          coverageSheet rep = Placeholder notAvailablePlaceholder)"
proof -
  have p: "raw_metadata sourceWithoutCoverage \<noteq> None \<and> raw_regions sourceWithoutCoverage \<noteq> None \<and>
      raw_services sourceWithoutCoverage \<noteq> None \<and> raw_servicesByRegion sourceWithoutCoverage = None"
    by (simp add: sourceWithoutCoverage_def)
  have q: "readSourceData (calmWorld sourceWithoutCoverage) = Inr sourceWithoutCoverage \<and>
      readServicesData (calmWorld sourceWithoutCoverage) = [] \<and>
      excelError (calmWorld sourceWithoutCoverage) = None \<and>
      uploadError (calmWorld sourceWithoutCoverage) = None \<and>
      notifyError (calmWorld sourceWithoutCoverage) = None"
    by (simp add: calmWorld_def)
  from validation_fatal_cases
    [of sourceWithoutCoverage "[]" codeUnitKey "calmWorld sourceWithoutCoverage" sampleNewDate]
    p q
  show ?thesis by simp
qed

text \<open>
  The claim as stated fails on a source document that has its regions and its services
  but no metadata: the run aborts with the invalid-structure error and status 500.
\<close>

theorem validation_counterexample:
  "raw_regions sourceWithoutMetadata \<noteq> None \<and> raw_services sourceWithoutMetadata \<noteq> None \<and>
   normalizeData sourceWithoutMetadata [] = Inl InvalidDataStructure \<and>
   statusCode (handler codeUnitKey sampleNewDate (calmWorld sourceWithoutMetadata)) = 500 \<and>
   failure (handler codeUnitKey sampleNewDate (calmWorld sourceWithoutMetadata))
     = Some InvalidDataStructure \<and>
   notifications (handler codeUnitKey sampleNewDate (calmWorld sourceWithoutMetadata))
     = [FailureNotification InvalidDataStructure]"
  by (simp add: sourceWithoutMetadata_def normalizeData_def handler_def calmWorld_def failed_def)

section \<open>Properties of the Regions sheet\<close>

lemma launch_date_of_row:
  "launchDateCell (regionRow newDate sbr r)
     = formatLaunchDate newDate (orElse (r_launchDate r) (orElse (r_LaunchDate r) []))"
  "launchDateFont (regionRow newDate sbr r)
     = (if launchDateCell (regionRow newDate sbr r) = ''N/A'' then Some grayItalic else None)"
  by (simp_all add: regionRow_def Let_def)

text \<open>
  The launch-date cell of every row: \<open>N/A\<close> in gray italic when the region has no launch
  date or when its text makes an invalid date, the date part of the ISO text when it
  makes a valid date, and the original text only if building the date throws.
\<close>

lemma launch_date_cell:
  assumes "row \<in> set (createRegionsSheet newDate sd)"
  shows "\<exists>r \<in> set (orEmpty (sd_regions sd)).
           (let launchDate = orElse (r_launchDate r) (orElse (r_LaunchDate r) []) in
            launchDateCell row =
              (if launchDate = [] then ''N/A''
               else case newDate launchDate of
                      InvalidDate \<Rightarrow> ''N/A''
                    | ValidDate isoText \<Rightarrow> takeWhile (\<lambda>c. c \<noteq> CHR ''T'') isoText
                    | DateThrows \<Rightarrow> launchDate) \<and>
            launchDateFont row = (if launchDateCell row = ''N/A'' then Some grayItalic else None))"
proof -
  from assms obtain r where r: "r \<in> set (orEmpty (sd_regions sd))"
    and row: "row = regionRow newDate (orEmpty (sd_servicesByRegion sd)) r"
    by (auto simp: createRegionsSheet_def Let_def)
  have "launchDateCell row =
      (if orElse (r_launchDate r) (orElse (r_LaunchDate r) []) = [] then ''N/A''
       else case newDate (orElse (r_launchDate r) (orElse (r_LaunchDate r) [])) of
              InvalidDate \<Rightarrow> ''N/A''
            | ValidDate isoText \<Rightarrow> takeWhile (\<lambda>c. c \<noteq> CHR ''T'') isoText
            | DateThrows \<Rightarrow> orElse (r_launchDate r) (orElse (r_LaunchDate r) []))"
    by (simp add: row launch_date_of_row formatLaunchDate_def split: js_date.splits)
  moreover have "launchDateFont row = (if launchDateCell row = ''N/A'' then Some grayItalic else None)"
    by (simp only: row launch_date_of_row)
  ultimately show ?thesis using r by (auto simp: Let_def)
qed

text \<open>
  Claim C6, evaluated on the code. Of three regions, the first with the launch date
  \<open>not-a-date\<close>, which makes an invalid date, the second with the launch date
  2006-08-25 and the third without a launch date, the Regions sheet shows \<open>N/A\<close> in
  gray italic for the first, 2006-08-25 in the default style for the second and
  \<open>N/A\<close> in gray italic for the third. The text that is no date does not pass through.
\<close>

theorem launch_date_unparseable:
  "sampleNewDate ''not-a-date'' = InvalidDate \<and>
   map launchDateCell (createRegionsSheet sampleNewDate launchDateModel)
     = [''N/A'', ''2006-08-25'', ''N/A''] \<and>
   map launchDateFont (createRegionsSheet sampleNewDate launchDateModel)
     = [Some grayItalic, None, Some grayItalic]"
  by (simp add: createRegionsSheet_def regionRow_def Let_def formatLaunchDate_def sampleNewDate_def
      regionWithLaunchDate_def sampleRegion_def launchDateModel_def orElse_def orEmpty_def)

section \<open>Properties of the archive retention\<close>

lemma deleteExpired_result:
  "deleteExpired es (n, store) =
     (n + length (filter (\<lambda>e. Key e \<notin> set (deleteFails store)) es),
      store\<lparr>objects := filter (\<lambda>obj. Key obj \<notin> Key ` {e \<in> set es. Key e \<notin> set (deleteFails store)})
                                  (objects store)\<rparr>)"
proof (induction es arbitrary: n store)
  case Nil
  show ?case by simp
next
  case (Cons e es)
  show ?case
  proof (cases "Key e \<in> set (deleteFails store)")
    case True
    then have "deleteExpired (e # es) (n, store) = deleteExpired es (n, store)"
      by (simp add: deleteObject_def)
    also have "\<dots> = (n + length (filter (\<lambda>e. Key e \<notin> set (deleteFails store)) es),
      store\<lparr>objects := filter (\<lambda>obj. Key obj \<notin> Key ` {e \<in> set es. Key e \<notin> set (deleteFails store)})
                                  (objects store)\<rparr>)"
      by (rule Cons.IH)
    also have "{x \<in> set es. Key x \<notin> set (deleteFails store)}
        = {x \<in> set (e # es). Key x \<notin> set (deleteFails store)}"
      using True by auto
    finally show ?thesis using True by simp
  next
    case False
    let ?store' = "store\<lparr>objects := filter (\<lambda>obj. Key obj \<noteq> Key e) (objects store)\<rparr>"
    have "deleteExpired (e # es) (n, store) = deleteExpired es (n + 1, ?store')"
      using False by (simp add: deleteObject_def)
    also have "\<dots> = (n + 1 + length (filter (\<lambda>e. Key e \<notin> set (deleteFails ?store')) es),
      ?store'\<lparr>objects := filter (\<lambda>obj. Key obj \<notin> Key ` {e \<in> set es. Key e \<notin> set (deleteFails ?store')})
                                  (objects ?store')\<rparr>)"
      by (rule Cons.IH)
    also have "filter (\<lambda>obj. Key obj \<notin> Key ` {x \<in> set es. Key x \<notin> set (deleteFails ?store')}) (objects ?store')
        = filter (\<lambda>obj. Key obj \<notin> Key ` {x \<in> set (e # es). Key x \<notin> set (deleteFails store)}) (objects store)"
      using False by (auto intro!: filter_cong)
    finally show ?thesis using False by simp
  qed
qed

lemma sample_sweep:
  "manageArchiveRetention sampleArchive sampleNow 7 =
     Inr (\<lparr>retained = 2, deleted = 2\<rparr>,
          \<lparr>objects = [agedObject ''archive/report-1.xlsx'' 1, agedObject ''archive/report-5.xlsx'' 5],
           listError = None, deleteFails = []\<rparr>)"
  by (simp add: manageArchiveRetention_def Let_def cutoffDate_def sampleArchive_def sampleObjects_def
      agedObject_def sampleNow_def deleteObject_def)

lemma stubborn_sweep:
  "manageArchiveRetention stubbornArchive sampleNow 7 =
     Inr (\<lparr>retained = 2, deleted = 1\<rparr>,
          \<lparr>objects = [agedObject ''archive/report-1.xlsx'' 1, agedObject ''archive/report-5.xlsx'' 5,
                      agedObject ''archive/report-8.xlsx'' 8],
           listError = None, deleteFails = [''archive/report-8.xlsx'']\<rparr>)"
  by (simp add: manageArchiveRetention_def Let_def cutoffDate_def stubbornArchive_def sampleObjects_def
      agedObject_def sampleNow_def deleteObject_def)

text \<open>
  Claim C8. Whenever the list call succeeds, the retention sweep returns, whatever the
  deletions do: \<open>retained\<close> is the number of objects whose last-modified time is not
  before the cutoff (the current time minus the retention days), \<open>deleted\<close> is the
  number of objects before the cutoff whose deletion succeeds, the objects so deleted
  are gone from the archive and all others are still there; an object is either
  retained or expired. With objects 1, 5, 8 and 10 days old and a window of 7 days the
  result is 2 retained and 2 deleted.
\<close>

theorem retention_sweep:
  assumes "listError store = None"
  shows "manageArchiveRetention store t retentionDays =
           Inr (\<lparr>retained = length (filter (\<lambda>obj. t - retentionDays * 86400000 \<le> LastModified obj)
                                           (objects store)),
                 deleted = length (filter (\<lambda>obj. LastModified obj < t - retentionDays * 86400000 \<and>
                                                  Key obj \<notin> set (deleteFails store))
                                          (objects store))\<rparr>,
                store\<lparr>objects :=
                  filter (\<lambda>obj. Key obj \<notin> Key ` {e \<in> set (objects store).
                                     LastModified e < t - retentionDays * 86400000 \<and>
                                     Key e \<notin> set (deleteFails store)})
                         (objects store)\<rparr>) \<and>
         length (filter (\<lambda>obj. t - retentionDays * 86400000 \<le> LastModified obj) (objects store)) +
         length (filter (\<lambda>obj. LastModified obj < t - retentionDays * 86400000) (objects store))
           = length (objects store)"
proof -
  let ?cut = "t - retentionDays * 86400000"
  have part: "length (filter (\<lambda>obj. ?cut \<le> LastModified obj) (objects store)) +
         length (filter (\<lambda>obj. LastModified obj < ?cut) (objects store)) = length (objects store)"
    using sum_length_filter_compl [of "\<lambda>obj. ?cut \<le> LastModified obj" "objects store"]
    by (simp add: not_le)
  have r: "filter (\<lambda>obj. \<not> LastModified obj < ?cut) (objects store)
      = filter (\<lambda>obj. ?cut \<le> LastModified obj) (objects store)"
    by (simp add: not_less)
  have s: "{e \<in> set (filter (\<lambda>obj. LastModified obj < ?cut) (objects store)). Key e \<notin> set (deleteFails store)}
      = {e \<in> set (objects store). LastModified e < ?cut \<and> Key e \<notin> set (deleteFails store)}"
    by auto
  have main: "manageArchiveRetention store t retentionDays =
           Inr (\<lparr>retained = length (filter (\<lambda>obj. ?cut \<le> LastModified obj) (objects store)),
                 deleted = length (filter (\<lambda>obj. LastModified obj < ?cut \<and>
                                                  Key obj \<notin> set (deleteFails store))
                                          (objects store))\<rparr>,
                store\<lparr>objects :=
                  filter (\<lambda>obj. Key obj \<notin> Key ` {e \<in> set (objects store).
                                     LastModified e < ?cut \<and> Key e \<notin> set (deleteFails store)})
                         (objects store)\<rparr>)"
  proof (cases "objects store = []")
    case True
    then show ?thesis using assms by (simp add: manageArchiveRetention_def)
  next
    case False
    let ?exp = "filter (\<lambda>obj. LastModified obj < ?cut) (objects store)"
    have d: "deleteExpired ?exp (0, store) =
        (length (filter (\<lambda>e. Key e \<notin> set (deleteFails store)) ?exp),
         store\<lparr>objects := filter (\<lambda>obj. Key obj \<notin> Key ` {e \<in> set ?exp. Key e \<notin> set (deleteFails store)})
                                  (objects store)\<rparr>)"
      using deleteExpired_result [of ?exp 0 store] by simp
    have l: "length (filter (\<lambda>e. Key e \<notin> set (deleteFails store)) ?exp)
        = length (filter (\<lambda>obj. LastModified obj < ?cut \<and> Key obj \<notin> set (deleteFails store))
                         (objects store))"
      by (simp only: filter_filter)
    have "manageArchiveRetention store t retentionDays =
        (let (deletedCount, store') = deleteExpired ?exp (0, store)
         in Inr (\<lparr>retained = length (filter (\<lambda>obj. \<not> LastModified obj < ?cut) (objects store)),
                  deleted = deletedCount\<rparr>, store'))"
      using assms False by (simp add: manageArchiveRetention_def Let_def cutoffDate_def)
    also have "\<dots> = Inr (\<lparr>retained = length (filter (\<lambda>obj. ?cut \<le> LastModified obj) (objects store)),
                 deleted = length (filter (\<lambda>obj. LastModified obj < ?cut \<and>
                                                  Key obj \<notin> set (deleteFails store))
                                          (objects store))\<rparr>,
                store\<lparr>objects :=
                  filter (\<lambda>obj. Key obj \<notin> Key ` {e \<in> set (objects store).
                                     LastModified e < ?cut \<and> Key e \<notin> set (deleteFails store)})
                         (objects store)\<rparr>)"
      by (simp only: d prod.case Let_def l r s)
    finally show ?thesis .
  qed
  from main part show ?thesis by (rule conjI)
qed

theorem retention_sweep_witness:
  "listError sampleArchive = None \<and>
   manageArchiveRetention sampleArchive sampleNow 7 =
     Inr (\<lparr>retained = 2, deleted = 2\<rparr>,
          \<lparr>objects = [agedObject ''archive/report-1.xlsx'' 1, agedObject ''archive/report-5.xlsx'' 5],
           listError = None, deleteFails = []\<rparr>) \<and>
   length (filter (\<lambda>obj. sampleNow - 7 * 86400000 \<le> LastModified obj) (objects sampleArchive)) = 2 \<and>
   length (filter (\<lambda>obj. LastModified obj < sampleNow - 7 * 86400000 \<and>
                          Key obj \<notin> set (deleteFails sampleArchive)) (objects sampleArchive)) = 2"
proof -
  have l: "listError sampleArchive = None" by (simp add: sampleArchive_def)
  from retention_sweep [OF l, of sampleNow 7] sample_sweep l show ?thesis by simp
qed

section \<open>Properties of the handler: a failing distribution copy\<close>

lemma distributeReports_failure:
  assumes "b \<noteq> []" "k \<noteq> []"
  shows "distributeReports (Some (message, name)) (Some b) (Some k) =
           \<lparr>distributed = False, reason = None, distributionPath = None,
            dist_error = Some message, dist_errorType = Some name\<rparr>"
  using assms by (simp add: distributeReports_def orElse_def)

text \<open>
  Claim C9, as it holds on the code. In every run in which the copy to the configured
  distribution bucket fails and every other stage succeeds, the run ends with status
  200 and the generated report, the result carries the distribution result with
  \<open>distributed\<close> false and the message and the name of the error, and the notification
  that the run dispatches is the success notification: the handler dispatches the
  warning notification only for a failed retention sweep.
\<close>

theorem mirror_failure_is_not_fatal:
  fixes localeKey :: "string \<Rightarrow> 'k::linorder"
  assumes src: "readSourceData w = Inr src"
    and nd: "normalizeData src (readServicesData w) = Inr nd"
    and ok: "excelError w = None" "uploadError w = None" "notifyError w = None"
    and lst: "listError (archive w) = None"
    and cfg: "distributionBucket w = Some b" "b \<noteq> []" "distributionKey w = Some k" "k \<noteq> []"
    and cp: "copyError w = Some (message, name)"
  shows "statusCode (handler localeKey newDate w) = 200 \<and>
         failure (handler localeKey newDate w) = None \<and>
         generated (handler localeKey newDate w) = Some (generateExcelReport localeKey newDate nd) \<and>
         distributionResult (handler localeKey newDate w) =
           Some \<lparr>distributed = False, reason = None, distributionPath = None,
                 dist_error = Some message, dist_errorType = Some name\<rparr> \<and>
         notifications (handler localeKey newDate w) = [SuccessNotification]"
proof -
  from manageArchiveRetention_total [OF lst, of "now w" "archiveRetentionDays w"]
  obtain res store' where
    m: "manageArchiveRetention (archive w) (now w) (archiveRetentionDays w) = Inr (res, store')"
    by blast
  have d: "distributeReports (copyError w) (distributionBucket w) (distributionKey w) =
      \<lparr>distributed = False, reason = None, distributionPath = None,
       dist_error = Some message, dist_errorType = Some name\<rparr>"
    using cfg cp by (simp add: distributeReports_failure)
  show ?thesis
    by (simp add: handler_def src nd ok m d Let_def orElse_def)
qed

theorem mirror_failure_is_not_fatal_witness:
  "copyError mirrorFailureWorld = Some (''Access Denied'', ''AccessDenied'') \<and>
   statusCode (handler codeUnitKey sampleNewDate mirrorFailureWorld) = 200 \<and>
   failure (handler codeUnitKey sampleNewDate mirrorFailureWorld) = None \<and>
   distributionResult (handler codeUnitKey sampleNewDate mirrorFailureWorld) =
     Some \<lparr>distributed = False, reason = None, distributionPath = None,
           dist_error = Some ''Access Denied'', dist_errorType = Some ''AccessDenied''\<rparr> \<and>
   notifications (handler codeUnitKey sampleNewDate mirrorFailureWorld) = [SuccessNotification]"
proof -
  have src: "readSourceData mirrorFailureWorld = Inr completeSource"
    by (simp add: mirrorFailureWorld_def)
  have nd: "normalizeData completeSource (readServicesData mirrorFailureWorld) =
      Inr \<lparr>sd_metadata = Some sampleMetadata, sd_regions = Some scenarioRegions,
           sd_services = Some [sampleService ''s3'' ''Amazon S3'', sampleService ''ec2'' ''ec2'',
                               sampleService ''lambda'' ''lambda''],
           sd_servicesByRegion = Some scenarioCoverage\<rparr>"
    by (simp add: mirrorFailureWorld_def completeSource_def normalizeData_def unwrap_def
        servicesByRegionRaw_def normalizeCoverage_def assignProp_def serviceMapOf_def enrich_def orElse_def
        sampleService_def scenarioCoverage_def)
  have ok: "excelError mirrorFailureWorld = None" "uploadError mirrorFailureWorld = None"
    "notifyError mirrorFailureWorld = None"
    by (simp_all add: mirrorFailureWorld_def)
  have lst: "listError (archive mirrorFailureWorld) = None"
    by (simp add: mirrorFailureWorld_def sampleArchive_def)
  have cfg: "distributionBucket mirrorFailureWorld = Some ''www.aws-services.synepho.com''"
    "''www.aws-services.synepho.com'' \<noteq> []"
    "distributionKey mirrorFailureWorld = Some ''reports/aws-service-report-latest.xlsx''"
    "''reports/aws-service-report-latest.xlsx'' \<noteq> []"
    by (simp_all add: mirrorFailureWorld_def)
  have cp: "copyError mirrorFailureWorld = Some (''Access Denied'', ''AccessDenied'')"
    by (simp add: mirrorFailureWorld_def)
  from mirror_failure_is_not_fatal [OF src nd ok lst cfg cp, of codeUnitKey sampleNewDate] cp
  show ?thesis by simp
qed


text \<open>
  The claim as stated fails in the run of \<open>mirrorFailureWorld\<close>: the copy fails,
  everything else succeeds, and the one notification of the run is the success
  notification, not a warning.
\<close>

theorem mirror_failure_counterexample:
  "copyError mirrorFailureWorld = Some (''Access Denied'', ''AccessDenied'') \<and>
   distributionBucket mirrorFailureWorld = Some ''www.aws-services.synepho.com'' \<and>
   distributionKey mirrorFailureWorld = Some ''reports/aws-service-report-latest.xlsx'' \<and>
   statusCode (handler codeUnitKey sampleNewDate mirrorFailureWorld) = 200 \<and>
   archivedReportsRetained (handler codeUnitKey sampleNewDate mirrorFailureWorld) = Some 2 \<and>
   archivedReportsDeleted (handler codeUnitKey sampleNewDate mirrorFailureWorld) = 2 \<and>
   notifications (handler codeUnitKey sampleNewDate mirrorFailureWorld) = [SuccessNotification] \<and>
   SuccessNotification \<noteq> WarningNotification ''Access Denied''"
proof -
  have nd: "normalizeData completeSource [\<lparr>ns_code = ''s3'', ns_name = Some ''Amazon S3''\<rparr>] =
      Inr \<lparr>sd_metadata = Some sampleMetadata, sd_regions = Some scenarioRegions,
           sd_services = Some [sampleService ''s3'' ''Amazon S3'', sampleService ''ec2'' ''ec2'',
                               sampleService ''lambda'' ''lambda''],
           sd_servicesByRegion = Some scenarioCoverage\<rparr>"
    by (simp add: completeSource_def normalizeData_def unwrap_def
        servicesByRegionRaw_def normalizeCoverage_def assignProp_def serviceMapOf_def enrich_def orElse_def
        sampleService_def scenarioCoverage_def)
  show ?thesis
    by (simp add: handler_def mirrorFailureWorld_def nd sample_sweep Let_def orElse_def)
qed


end
